theory Spec2Isabelle
  imports Complex_Main
begin

section \<open>Strings of the host language\<close>

text \<open>
  A TypeScript string is a sequence of UTF-16 code units. A code unit is modelled by its
  number; literals of the source are written with \<open>str\<close>, which maps each character of
  an ASCII literal to its code.
\<close>

type_synonym jschar = nat
type_synonym jsstring = "jschar list"

definition str :: "string \<Rightarrow> jsstring" where
  "str s = map of_char s"

text \<open>
  The character classes of the regular expressions: \<open>\s\<close> is the white space and the
  line terminators of ECMAScript; \<open>.\<close> (without the \<open>s\<close> flag) is every code unit but
  the four line terminators.
\<close>

definition isLineTerminator :: "jschar \<Rightarrow> bool" where
  "isLineTerminator c = (c = 0x0A \<or> c = 0x0D \<or> c = 0x2028 \<or> c = 0x2029)"

definition isWhiteSpace :: "jschar \<Rightarrow> bool" where
  "isWhiteSpace c =
     (c = 0x09 \<or> c = 0x0B \<or> c = 0x0C \<or> c = 0x20 \<or> c = 0xA0 \<or> c = 0x1680 \<or>
      (0x2000 \<le> c \<and> c \<le> 0x200A) \<or> c = 0x202F \<or> c = 0x205F \<or> c = 0x3000 \<or>
      c = 0xFEFF \<or> isLineTerminator c)"

subsection \<open>\<open>String.prototype.split('\n')\<close> and \<open>Array.prototype.join('\n')\<close>\<close>

fun splitNL :: "jsstring \<Rightarrow> jsstring list" where
  "splitNL [] = [[]]"
| "splitNL (c # cs) =
     (if c = 0x0A then [] # splitNL cs
      else (case splitNL cs of [] \<Rightarrow> [[c]] | l # ls \<Rightarrow> (c # l) # ls))"

fun joinNL :: "jsstring list \<Rightarrow> jsstring" where
  "joinNL [] = []"
| "joinNL [l] = l"
| "joinNL (l # m # ls) = l @ 0x0A # joinNL (m # ls)"

section \<open>Regular expressions of the conflict markers\<close>

text \<open>
  The four patterns of \<open>ConflictDetector\<close> are anchored at both ends (\<open>^ ... $\<close>) and
  carry no flag, so \<open>RegExp.prototype.test\<close> succeeds exactly when the whole argument is
  matched: without the \<open>m\<close> flag the anchors are the two ends of the input. A pattern is the
  list of its quantified character classes between the anchors; the capture group of
  the source has no effect on \<open>test\<close>.
\<close>

datatype charClass = Lit jschar | Space | NonSpace | Dot

datatype item = One charClass | Exactly nat charClass | OneOrMore charClass | ZeroOrMore charClass

fun accepts :: "charClass \<Rightarrow> jschar \<Rightarrow> bool" where
  "accepts (Lit a) c = (c = a)"
| "accepts Space c = isWhiteSpace c"
| "accepts NonSpace c = (\<not> isWhiteSpace c)"
| "accepts Dot c = (\<not> isLineTerminator c)"

fun regexTest :: "item list \<Rightarrow> jsstring \<Rightarrow> bool" where
  "regexTest [] s = (s = [])"
| "regexTest (One k # r) [] = False"
| "regexTest (One k # r) (c # cs) = (accepts k c \<and> regexTest r cs)"
| "regexTest (Exactly 0 k # r) s = regexTest r s"
| "regexTest (Exactly (Suc n) k # r) [] = False"
| "regexTest (Exactly (Suc n) k # r) (c # cs) = (accepts k c \<and> regexTest (Exactly n k # r) cs)"
| "regexTest (OneOrMore k # r) [] = False"
| "regexTest (OneOrMore k # r) (c # cs) = (accepts k c \<and> regexTest (ZeroOrMore k # r) cs)"
| "regexTest (ZeroOrMore k # r) [] = regexTest r []"
| "regexTest (ZeroOrMore k # r) (c # cs) =
     ((accepts k c \<and> regexTest (ZeroOrMore k # r) cs) \<or> regexTest r (c # cs))"

definition conflictStartPattern :: "item list" where
  "conflictStartPattern = [Exactly 7 (Lit 0x3C), OneOrMore Space, ZeroOrMore Dot]"

definition conflictSeparatorPattern :: "item list" where
  "conflictSeparatorPattern = [Exactly 7 (Lit 0x3D)]"

definition conflictEndPattern :: "item list" where
  "conflictEndPattern = [Exactly 7 (Lit 0x3E), OneOrMore Space, ZeroOrMore Dot]"

definition conflictBasePattern :: "item list" where
  "conflictBasePattern = [Exactly 7 (Lit 0x7C), OneOrMore Space, ZeroOrMore Dot]"

section \<open>The conflict detector\<close>

text \<open>
  The part of \<open>vscode.TextDocument\<close> that the detector and the resolver read.
\<close>

record TextDocument =
  getText :: jsstring
  fileName :: jsstring
  languageId :: jsstring

text \<open>
  \<open>Partial<MergeConflict>\<close> as the parser fills it: the start branch creates the object
  with \<open>startLine\<close>, \<open>currentStart\<close> and \<open>filePath\<close>; only the separator branch
  assigns \<open>currentEnd\<close>, \<open>separatorLine\<close> and \<open>incomingStart\<close>, so these three are
  \<open>undefined\<close> (\<open>None\<close>) until a separator line is read. The end branch assigns the
  remaining fields just before the push; \<open>baseContent\<close> is assigned only when the base
  buffer is not empty. Line numbers are integers.
\<close>

record PartialConflict =
  startLine :: int
  currentStart :: int
  filePath :: jsstring
  currentEnd :: "int option"
  separatorLine :: "int option"
  incomingStart :: "int option"

record MergeConflict = PartialConflict +
  endLine :: int
  incomingEnd :: int
  currentContent :: jsstring
  incomingContent :: jsstring
  baseContent :: "jsstring option"

datatype sectionTag = Current | Base | Incoming

text \<open>
  The local variables of \<open>detectConflictsInFile\<close>. The three buffers \<open>currentContent\<close>,
  \<open>baseContent\<close> and \<open>incomingContent\<close> of the source (each a \<open>string[]\<close>) are the fields
  \<open>currentLines\<close>, \<open>baseLines\<close> and \<open>incomingLines\<close>; the variable \<open>section\<close> is
  \<open>section'\<close>.
\<close>

record ParseState =
  conflicts :: "MergeConflict list"
  inConflict :: bool
  currentConflict :: "PartialConflict option"
  section' :: sectionTag
  currentLines :: "jsstring list"
  baseLines :: "jsstring list"
  incomingLines :: "jsstring list"

definition initialState :: ParseState where
  "initialState = \<lparr>conflicts = [], inConflict = False, currentConflict = None,
     section' = Current, currentLines = [], baseLines = [], incomingLines = []\<rparr>"

text \<open>The object pushed by the end branch, from the partial object and the buffers.\<close>

definition finishConflict :: "PartialConflict \<Rightarrow> int \<Rightarrow> ParseState \<Rightarrow> MergeConflict" where
  "finishConflict p i st =
     \<lparr>startLine = startLine p, currentStart = currentStart p, filePath = filePath p,
      currentEnd = currentEnd p, separatorLine = separatorLine p,
      incomingStart = incomingStart p,
      endLine = i, incomingEnd = i - 1,
      currentContent = joinNL (currentLines st),
      incomingContent = joinNL (incomingLines st),
      baseContent = (if length (baseLines st) > 0 then Some (joinNL (baseLines st)) else None)\<rparr>"

text \<open>The body of the \<open>for\<close> loop, for line \<open>i\<close>.\<close>

definition parseLine :: "jsstring \<Rightarrow> int \<Rightarrow> jsstring \<Rightarrow> ParseState \<Rightarrow> ParseState" where
  "parseLine file i line st =
     (if regexTest conflictStartPattern line then
        st\<lparr>inConflict := True,
           currentConflict := Some \<lparr>startLine = i, currentStart = i + 1, filePath = file,
             currentEnd = None, separatorLine = None, incomingStart = None\<rparr>,
           section' := Current, currentLines := [], baseLines := [], incomingLines := []\<rparr>
      else if inConflict st \<and> regexTest conflictSeparatorPattern line then
        st\<lparr>currentConflict :=
             (case currentConflict st of
                None \<Rightarrow> None
              | Some p \<Rightarrow> Some (p\<lparr>currentEnd := Some (i - 1), separatorLine := Some i,
                                   incomingStart := Some (i + 1)\<rparr>)),
           section' := Incoming\<rparr>
      else if inConflict st \<and> regexTest conflictBasePattern line then
        st\<lparr>section' := Base\<rparr>
      else if inConflict st \<and> regexTest conflictEndPattern line then
        st\<lparr>conflicts :=
             (case currentConflict st of
                None \<Rightarrow> conflicts st
              | Some p \<Rightarrow> conflicts st @ [finishConflict p i st]),
           inConflict := False, currentConflict := None\<rparr>
      else if inConflict st then
        (case section' st of
           Current \<Rightarrow> st\<lparr>currentLines := currentLines st @ [line]\<rparr>
         | Base \<Rightarrow> st\<lparr>baseLines := baseLines st @ [line]\<rparr>
         | Incoming \<Rightarrow> st\<lparr>incomingLines := incomingLines st @ [line]\<rparr>)
      else st)"

fun parseLines :: "jsstring \<Rightarrow> int \<Rightarrow> jsstring list \<Rightarrow> ParseState \<Rightarrow> ParseState" where
  "parseLines file i [] st = st"
| "parseLines file i (line # rest) st = parseLines file (i + 1) rest (parseLine file i line st)"

definition detectConflictsInFile :: "TextDocument \<Rightarrow> MergeConflict list" where
  "detectConflictsInFile document =
     conflicts (parseLines (fileName document) 0 (splitNL (getText document)) initialState)"

definition hasConflicts :: "TextDocument \<Rightarrow> bool" where
  "hasConflicts document =
     (regexTest conflictStartPattern (getText document) \<and>
      regexTest conflictSeparatorPattern (getText document) \<and>
      regexTest conflictEndPattern (getText document))"

section \<open>Requests, responses and prompts\<close>

text \<open>
  The interfaces of \<open>AIProvider.ts\<close>. Fields whose names the conflict record already
  uses carry a prime. An optional field is an \<open>option\<close>; a \<open>number\<close> that holds a
  confidence or a temperature is a real number, one that holds a count is an integer.
\<close>

record AIProviderConfig =
  apiKey :: "jsstring option"
  model :: "jsstring option"
  endpoint :: "jsstring option"
  temperature :: "real option"
  maxTokens :: "int option"

record ConflictResolutionRequest =
  currentContent' :: jsstring
  incomingContent' :: jsstring
  baseContent' :: "jsstring option"
  context' :: jsstring
  filePath' :: jsstring
  language :: "jsstring option"

record ConflictResolutionResponse =
  resolution :: jsstring
  explanation :: jsstring
  confidence :: real
  alternatives :: "jsstring list option"

text \<open>A thrown \<open>Error\<close> object, with its \<open>message\<close>.\<close>

datatype Error = Error jsstring

fun message :: "Error \<Rightarrow> jsstring" where
  "message (Error m) = m"

text \<open>
  \<open>a || b\<close> on an optional string and on an optional number: the left operand unless it
  is \<open>undefined\<close>, the empty string or zero; \<open>truthy\<close> is the test of an optional
  string in a condition.
\<close>

definition truthy :: "jsstring option \<Rightarrow> bool" where
  "truthy a = (case a of None \<Rightarrow> False | Some s \<Rightarrow> s \<noteq> [])"

definition orString :: "jsstring option \<Rightarrow> jsstring \<Rightarrow> jsstring" where
  "orString a b = (case a of None \<Rightarrow> b | Some s \<Rightarrow> if s = [] then b else s)"

definition orNumber :: "'a::zero option \<Rightarrow> 'a \<Rightarrow> 'a" where
  "orNumber a b = (case a of None \<Rightarrow> b | Some x \<Rightarrow> if x = 0 then b else x)"

definition buildPrompt :: "ConflictResolutionRequest \<Rightarrow> jsstring" where
  \<open>buildPrompt request =
     joinNL
       [str ''You are an expert developer helping to resolve a merge conflict in '' @
          filePath' request @ str ''.'',
        [],
        str ''The conflict has occurred between the following versions:'',
        [],
        str ''CURRENT VERSION (HEAD):'',
        str ''```'',
        currentContent' request,
        str ''```'',
        [],
        str ''INCOMING VERSION:'',
        str ''```'',
        incomingContent' request,
        str ''```'',
        []] @
     (if truthy (baseContent' request) then
        joinNL
          [[],
           str ''BASE VERSION (common ancestor):'',
           str ''```'',
           orString (baseContent' request) [],
           str ''```'',
           []]
      else []) @
     joinNL
       [[],
        str ''SURROUNDING CONTEXT:'',
        context' request,
        [],
        str ''Please analyze this merge conflict and provide:'',
        str ''1. A resolved version that correctly merges both changes'',
        str ''2. An explanation of your resolution strategy'',
        str ''3. Your confidence level (0-1) in this resolution'',
        [],
        str ''Consider:'',
        str ''- The intent of both changes'',
        str ''- Maintaining code functionality'',
        str ''- Preserving important logic from both versions'',
        str ''- Following the coding style and patterns in the file'',
        [],
        str ''Respond in JSON format:'',
        str ''{'',
        str ''    "resolution": "the merged code",'',
        str ''    "explanation": "why you resolved it this way",'',
        str ''    "confidence": 0.95'',
        str ''}'']\<close>

section \<open>The host: transports, editor and user\<close>

text \<open>
  What the providers and the resolver call outside the repository is a parameter of the
  model: a record of operations on an abstract world \<open>'w\<close>, which each call may change.
  \<^item> \<open>transport\<close> is the request a provider sends (\<open>ollama.generate\<close>, \<open>axios.post\<close>): it
    fails with an error object or returns the reply text that the provider reads
    (\<open>response.response\<close>, \<open>choices[0].message.content\<close>, \<open>content[0].text\<close>);
  \<^item> \<open>jsonParse\<close> is \<open>JSON.parse\<close>: \<open>None\<close> when parsing throws; \<open>JsonNull\<close> when the
    reply is the text \<open>null\<close>; else the value, as the three property reads see it: the
    fields that are present, typed as the interface types them (a number, a string, a
    boolean or an array has none of the three);
  \<^item> \<open>typeErrorMessage\<close> is the message of the \<open>TypeError\<close> that the engine throws when a
    property of \<open>null\<close> is read;
  \<^item> \<open>isCancellationRequested\<close> reads the token of \<open>withProgress\<close>;
  \<^item> \<open>applyEdit\<close> tells whether \<open>vscode.workspace.applyEdit\<close> applies the edit;
  \<^item> \<open>showWarningMessage\<close> and \<open>showErrorMessage\<close> return the button the user chose, if
    any; the text of the messages and the progress reports have no effect on the run and
    are left out;
  \<^item> \<open>openTextDocument\<close> opens the document of a path, or fails;
  \<^item> \<open>findFiles\<close> lists the paths of the workspace.
\<close>

datatype ProviderType = Ollama | OpenAI | Claude

record TransportError =
  errorName :: jsstring
  errorMessage :: jsstring
  responseErrorMessage :: "jsstring option"

record TransportCall =
  callEndpoint :: jsstring
  callApiKey :: "jsstring option"
  callModel :: jsstring
  callSystem :: "jsstring option"
  callPrompt :: jsstring
  callTemperature :: real
  callMaxTokens :: int

record ParsedResponse =
  parsedResolution :: "jsstring option"
  parsedExplanation :: "jsstring option"
  parsedConfidence :: "real option"

datatype JsonValue = JsonNull | JsonObject ParsedResponse

record 'w Host =
  transport :: "ProviderType \<Rightarrow> TransportCall \<Rightarrow> 'w \<Rightarrow> (TransportError + jsstring) \<times> 'w"
  jsonParse :: "jsstring \<Rightarrow> JsonValue option"
  typeErrorMessage :: jsstring
  isCancellationRequested :: "'w \<Rightarrow> bool"
  applyEdit :: "'w \<Rightarrow> bool \<times> 'w"
  showWarningMessage :: "'w \<Rightarrow> jsstring option \<times> 'w"
  showErrorMessage :: "'w \<Rightarrow> jsstring option \<times> 'w"
  openTextDocument :: "jsstring \<Rightarrow> 'w \<Rightarrow> (Error + TextDocument) \<times> 'w"
  findFiles :: "'w \<Rightarrow> jsstring list \<times> 'w"

text \<open>\<open>String(error)\<close> of an error object, as \<open>Error.prototype.toString\<close> builds it.\<close>

definition errorToString :: "TransportError \<Rightarrow> jsstring" where
  "errorToString e =
     (if errorName e = [] then errorMessage e
      else if errorMessage e = [] then errorName e
      else errorName e @ str '': '' @ errorMessage e)"

text \<open>
  The error object thrown by \<open>parsedResponse.resolution\<close> when \<open>parsedResponse\<close> is
  \<open>null\<close>; it has no \<open>response\<close> property.
\<close>

definition typeError :: "'w Host \<Rightarrow> TransportError" where
  "typeError host =
     \<lparr>errorName = str ''TypeError'', errorMessage = typeErrorMessage host,
      responseErrorMessage = None\<rparr>"

section \<open>The providers\<close>

text \<open>
  A provider is its \<open>resolveConflict\<close>: from a request and the world to a response or a
  thrown error, and the world after the call.
\<close>

type_synonym 'w AIProvider =
  "ConflictResolutionRequest \<Rightarrow> 'w \<Rightarrow> (Error + ConflictResolutionResponse) \<times> 'w"

definition unexpectedFormat :: jsstring where
  "unexpectedFormat = str ''AI provided a resolution but response format was unexpected''"

text \<open>
  In each provider the outer \<open>catch\<close> wraps what the \<open>try\<close> block throws: the error of the
  transport, and the \<open>TypeError\<close> of the property read on a reply that parses to \<open>null\<close>.
  The inner \<open>catch\<close> of \<open>JSON.parse\<close> returns the fallback response.
\<close>

text \<open>The call of \<open>ollama.generate\<close>, with the host given to the constructor.\<close>

definition ollamaCall :: "AIProviderConfig \<Rightarrow> ConflictResolutionRequest \<Rightarrow> TransportCall" where
  "ollamaCall config request =
     \<lparr>callEndpoint = orString (endpoint config) (str ''http://localhost:11434''),
      callApiKey = None,
      callModel = orString (model config) (str ''codellama''),
      callSystem = None,
      callPrompt = buildPrompt request,
      callTemperature = orNumber (temperature config) 0.3,
      callMaxTokens = orNumber (maxTokens config) 2048\<rparr>"

definition OllamaProvider :: "'w Host \<Rightarrow> AIProviderConfig \<Rightarrow> 'w AIProvider" where
  "OllamaProvider host config request w =
     (case transport host Ollama (ollamaCall config request) w of
        (Inl error, w') \<Rightarrow>
          (Inl (Error (str ''Failed to get resolution from Ollama: '' @ errorToString error)), w')
      | (Inr response, w') \<Rightarrow>
          (case jsonParse host response of
             None \<Rightarrow>
               (Inr \<lparr>resolution = response, explanation = unexpectedFormat,
                     confidence = 0.5, alternatives = None\<rparr>, w')
           | Some JsonNull \<Rightarrow>
               (Inl (Error (str ''Failed to get resolution from Ollama: '' @
                      errorToString (typeError host))), w')
           | Some (JsonObject parsedResponse) \<Rightarrow>
               (Inr \<lparr>resolution = orString (parsedResolution parsedResponse) response,
                     explanation = orString (parsedExplanation parsedResponse)
                       (str ''Resolution provided by Ollama''),
                     confidence = orNumber (parsedConfidence parsedResponse) 0.7,
                     alternatives = None\<rparr>, w')))"

text \<open>
  The two hosted providers have the same body, up to the names, the default endpoint and
  model, and the system message.
\<close>

definition hostedCall ::
  "jsstring \<Rightarrow> jsstring \<Rightarrow> jsstring \<Rightarrow> AIProviderConfig \<Rightarrow> ConflictResolutionRequest \<Rightarrow>
   TransportCall" where
  "hostedCall defaultEndpoint defaultModel system config request =
     \<lparr>callEndpoint = orString (endpoint config) defaultEndpoint,
      callApiKey = apiKey config,
      callModel = orString (model config) defaultModel,
      callSystem = Some system,
      callPrompt = buildPrompt request,
      callTemperature = orNumber (temperature config) 0.3,
      callMaxTokens = orNumber (maxTokens config) 2048\<rparr>"

definition hostedProvider ::
  "ProviderType \<Rightarrow> jsstring \<Rightarrow> jsstring \<Rightarrow> jsstring \<Rightarrow> jsstring \<Rightarrow>
   'w Host \<Rightarrow> AIProviderConfig \<Rightarrow> 'w AIProvider" where
  "hostedProvider kind name defaultEndpoint defaultModel system host config request w =
     (if \<not> truthy (apiKey config) then
        (Inl (Error (name @ str '' API key is required'')), w)
      else
        (case transport host kind
            (hostedCall defaultEndpoint defaultModel system config request) w of
           (Inl error, w') \<Rightarrow>
             (Inl (Error (str ''Failed to get resolution from '' @ name @ str '': '' @
                    orString (responseErrorMessage error) (errorMessage error))), w')
         | (Inr content, w') \<Rightarrow>
             (case jsonParse host content of
                None \<Rightarrow>
                  (Inr \<lparr>resolution = content, explanation = unexpectedFormat,
                        confidence = 0.6, alternatives = None\<rparr>, w')
              | Some JsonNull \<Rightarrow>
                  (Inl (Error (str ''Failed to get resolution from '' @ name @ str '': '' @
                         orString (responseErrorMessage (typeError host))
                           (errorMessage (typeError host)))), w')
              | Some (JsonObject parsedResponse) \<Rightarrow>
                  (Inr \<lparr>resolution = orString (parsedResolution parsedResponse) content,
                        explanation = orString (parsedExplanation parsedResponse)
                          (str ''Resolution provided by '' @ name),
                        confidence = orNumber (parsedConfidence parsedResponse) 0.85,
                        alternatives = None\<rparr>, w'))))"

definition openaiEndpoint :: jsstring where
  "openaiEndpoint = str ''https://api.openai.com/v1/chat/completions''"

definition openaiSystem :: jsstring where
  "openaiSystem = str ''You are an expert developer helping to resolve merge conflicts. Always respond with valid JSON.''"

definition OpenAIProvider :: "'w Host \<Rightarrow> AIProviderConfig \<Rightarrow> 'w AIProvider" where
  "OpenAIProvider =
     hostedProvider OpenAI (str ''OpenAI'') openaiEndpoint (str ''gpt-4'') openaiSystem"

definition claudeEndpoint :: jsstring where
  "claudeEndpoint = str ''https://api.anthropic.com/v1/messages''"

definition claudeSystem :: jsstring where
  "claudeSystem = str ''You are an expert developer helping to resolve merge conflicts. Always respond with valid JSON format.''"

definition ClaudeProvider :: "'w Host \<Rightarrow> AIProviderConfig \<Rightarrow> 'w AIProvider" where
  "ClaudeProvider =
     hostedProvider Claude (str ''Claude'') claudeEndpoint (str ''claude-3-opus-20240229'')
       claudeSystem"

subsection \<open>The provider manager\<close>

text \<open>
  \<open>getProviderConfig\<close>: the endpoint and the models come from the settings, the key from
  the secret storage or the input box (\<open>None\<close> when there is none); the temperature and
  the token limit are the two constants.
\<close>

record Settings =
  ollamaUrl :: jsstring
  ollamaModel :: jsstring
  openaiModel :: jsstring
  claudeModel :: jsstring

definition getProviderConfig :: "ProviderType \<Rightarrow> Settings \<Rightarrow> jsstring option \<Rightarrow> AIProviderConfig" where
  "getProviderConfig type settings key =
     (case type of
        Ollama \<Rightarrow> \<lparr>apiKey = None, model = Some (ollamaModel settings),
                    endpoint = Some (ollamaUrl settings), temperature = Some 0.3,
                    maxTokens = Some 2048\<rparr>
      | OpenAI \<Rightarrow> \<lparr>apiKey = key, model = Some (openaiModel settings), endpoint = None,
                    temperature = Some 0.3, maxTokens = Some 2048\<rparr>
      | Claude \<Rightarrow> \<lparr>apiKey = key, model = Some (claudeModel settings), endpoint = None,
                    temperature = Some 0.3, maxTokens = Some 2048\<rparr>)"

definition switchProvider :: "'w Host \<Rightarrow> ProviderType \<Rightarrow> AIProviderConfig \<Rightarrow> 'w AIProvider" where
  "switchProvider host type config =
     (case type of
        Ollama \<Rightarrow> OllamaProvider host config
      | OpenAI \<Rightarrow> OpenAIProvider host config
      | Claude \<Rightarrow> ClaudeProvider host config)"

definition getProvider :: "'w AIProvider option \<Rightarrow> Error + 'w AIProvider" where
  "getProvider currentProvider =
     (case currentProvider of
        None \<Rightarrow> Inl (Error (str ''No AI provider is configured''))
      | Some provider \<Rightarrow> Inr provider)"

section \<open>The conflict resolver\<close>

text \<open>\<open>Array.prototype.slice(start, end)\<close> with integer arguments.\<close>

definition slice :: "'a list \<Rightarrow> int \<Rightarrow> int \<Rightarrow> 'a list" where
  "slice xs start end' =
     (let len = int (length xs);
          k = (if start < 0 then max (len + start) 0 else min start len);
          final = (if end' < 0 then max (len + end') 0 else min end' len)
      in take (nat (final - k)) (drop (nat k) xs))"

definition extractContext :: "TextDocument \<Rightarrow> MergeConflict \<Rightarrow> int \<Rightarrow> jsstring" where
  "extractContext document conflict contextLines =
     (let lines = splitNL (getText document);
          startContext = max 0 (startLine conflict - contextLines);
          endContext = min (int (length lines) - 1) (endLine conflict + contextLines);
          beforeContext = joinNL (slice lines startContext (startLine conflict));
          afterContext = joinNL (slice lines (endLine conflict + 1) (endContext + 1))
      in str ''Context before conflict:\<newline>'' @ beforeContext @
         str ''\<newline>\<newline>Context after conflict:\<newline>'' @ afterContext)"

text \<open>
  The request object that \<open>resolveConflict\<close> and \<open>getSuggestions\<close> build, with the default
  of 50 context lines.
\<close>

definition resolutionRequest :: "TextDocument \<Rightarrow> MergeConflict \<Rightarrow> ConflictResolutionRequest" where
  "resolutionRequest document conflict =
     \<lparr>currentContent' = currentContent conflict,
      incomingContent' = incomingContent conflict,
      baseContent' = baseContent conflict,
      context' = extractContext document conflict 50,
      filePath' = filePath conflict,
      language = Some (languageId document)\<rparr>"

definition resolveConflict ::
  "'w AIProvider option \<Rightarrow> TextDocument \<Rightarrow> MergeConflict \<Rightarrow> 'w \<Rightarrow>
   (Error + ConflictResolutionResponse) \<times> 'w" where
  "resolveConflict currentProvider document conflict w =
     (case getProvider currentProvider of
        Inl error \<Rightarrow> (Inl error, w)
      | Inr provider \<Rightarrow> provider (resolutionRequest document conflict) w)"

text \<open>
  The lines of the document after the editor has replaced the range from
  \<open>(startLine, 0)\<close> to the end of line \<open>endLine\<close> by a text: the full lines
  \<open>startLine .. endLine\<close> become the one entry \<open>text\<close> (which may hold line breaks). A
  range whose start lies after its end is the range between the two positions in their
  order, as \<open>vscode.Range\<close> orders them.
\<close>

definition replaceRange :: "jsstring list \<Rightarrow> int \<Rightarrow> int \<Rightarrow> jsstring \<Rightarrow> jsstring list" where
  "replaceRange lines start end' text =
     (if start \<le> end' then take (nat start) lines @ [text] @ drop (nat end' + 1) lines
      else take (nat end') lines @
           [lines ! nat end' @ text @ (if start < int (length lines) then lines ! nat start else [])] @
           drop (nat start + 1) lines)"

text \<open>
  \<open>applyResolution\<close> on the document of the editor. \<open>lineAt\<close> throws for a line that the
  document does not have and \<open>vscode.Range\<close> for a negative line; the \<open>catch\<close> turns both
  into \<open>false\<close>, before any edit. When the editor applies the edit the document holds the
  new text and is saved; when it does not, the document is unchanged.
\<close>

definition applyResolution ::
  "'w Host \<Rightarrow> MergeConflict \<Rightarrow> jsstring \<Rightarrow> TextDocument \<Rightarrow> 'w \<Rightarrow> bool \<times> TextDocument \<times> 'w" where
  "applyResolution host conflict text document w =
     (let lines = splitNL (getText document) in
      if endLine conflict < 0 \<or> int (length lines) \<le> endLine conflict \<or> startLine conflict < 0
      then (False, document, w)
      else (case applyEdit host w of
              (False, w') \<Rightarrow> (False, document, w')
            | (True, w') \<Rightarrow>
                (True,
                 document\<lparr>getText :=
                   joinNL (replaceRange lines (startLine conflict) (endLine conflict) text)\<rparr>,
                 w')))"

record ResolutionResult =
  conflict :: MergeConflict
  resolution' :: ConflictResolutionResponse
  applied :: bool
  error :: "jsstring option"

text \<open>
  The state of the batch while one file is processed: the document of the editor, the
  results pushed so far and the world.
\<close>

record 'w BatchState =
  editorDocument :: TextDocument
  results :: "ResolutionResult list"
  world :: 'w

text \<open>
  How the body of the inner loop ends: with the next conflict, by \<open>break\<close>, or by
  \<open>return results\<close>.
\<close>

datatype flow = Next | Break | Return

definition resolveOne ::
  "'w Host \<Rightarrow> 'w AIProvider option \<Rightarrow> MergeConflict \<Rightarrow> 'w BatchState \<Rightarrow> flow \<times> 'w BatchState" where
  "resolveOne host currentProvider c st =
     (if isCancellationRequested host (world st) then (Break, st)
      else
        (case resolveConflict currentProvider (editorDocument st) c (world st) of
           (Inl err, w1) \<Rightarrow>
             (let r = \<lparr>conflict = c,
                       resolution' = \<lparr>resolution = [], explanation = [], confidence = 0,
                                       alternatives = None\<rparr>,
                       applied = False, error = Some (message err)\<rparr>;
                  (action, w2) = showErrorMessage host w1
              in (if action = Some (str ''Cancel'') then Return else Next,
                  st\<lparr>results := results st @ [r], world := w2\<rparr>))
         | (Inr res, w1) \<Rightarrow>
             (let (ok, doc1, w2) = applyResolution host c (resolution res) (editorDocument st) w1;
                  r = \<lparr>conflict = c, resolution' = res, applied = ok,
                       error = (if ok then None else Some (str ''Failed to apply edit''))\<rparr>
              in if ok then
                   (Next, \<lparr>editorDocument = doc1, results = results st @ [r], world = w2\<rparr>)
                 else
                   (let (retry, w3) = showWarningMessage host w2 in
                    if retry = Some (str ''Cancel'') then
                      (Return, \<lparr>editorDocument = doc1, results = results st @ [r], world = w3\<rparr>)
                    else if retry = Some (str ''Retry'') then
                      (let (retryApplied, doc2, w4) =
                             applyResolution host c (resolution res) doc1 w3
                       in (Next, \<lparr>editorDocument = doc2,
                                  results = results st @ [r\<lparr>applied := retryApplied\<rparr>],
                                  world = w4\<rparr>))
                    else
                      (Next, \<lparr>editorDocument = doc1, results = results st @ [r], world = w3\<rparr>)))))"

text \<open>The inner loop, over the sorted conflicts of one file.\<close>

fun resolveFile ::
  "'w Host \<Rightarrow> 'w AIProvider option \<Rightarrow> MergeConflict list \<Rightarrow> 'w BatchState \<Rightarrow> flow \<times> 'w BatchState" where
  "resolveFile host currentProvider [] st = (Next, st)"
| "resolveFile host currentProvider (c # cs) st =
     (case resolveOne host currentProvider c st of
        (Next, st') \<Rightarrow> resolveFile host currentProvider cs st'
      | (Break, st') \<Rightarrow> (Break, st')
      | (Return, st') \<Rightarrow> (Return, st'))"

text \<open>
  \<open>[...conflicts].sort((a, b) => b.startLine - a.startLine)\<close>: the sort of the host
  language is stable; it is modelled by insertion, from the right, before the first
  element that the comparison function does not put first.
\<close>

definition compareFn :: "MergeConflict \<Rightarrow> MergeConflict \<Rightarrow> int" where
  "compareFn a b = startLine b - startLine a"

fun insertSorted :: "MergeConflict \<Rightarrow> MergeConflict list \<Rightarrow> MergeConflict list" where
  "insertSorted a [] = [a]"
| "insertSorted a (b # bs) = (if compareFn a b \<le> 0 then a # b # bs else b # insertSorted a bs)"

definition sortConflicts :: "MergeConflict list \<Rightarrow> MergeConflict list" where
  "sortConflicts cs = foldr insertSorted cs []"

text \<open>
  The outer loop over the entries of the map. An error of \<open>openTextDocument\<close> or
  \<open>showTextDocument\<close> is not caught: it leaves \<open>resolveAllConflicts\<close>.
\<close>

fun resolveFiles ::
  "'w Host \<Rightarrow> 'w AIProvider option \<Rightarrow> (jsstring \<times> MergeConflict list) list \<Rightarrow>
   ResolutionResult list \<Rightarrow> 'w \<Rightarrow> (Error + ResolutionResult list) \<times> 'w" where
  "resolveFiles host currentProvider [] rs w = (Inr rs, w)"
| "resolveFiles host currentProvider ((path, cs) # rest) rs w =
     (if isCancellationRequested host w then (Inr rs, w)
      else
        (case openTextDocument host path w of
           (Inl err, w1) \<Rightarrow> (Inl err, w1)
         | (Inr doc, w1) \<Rightarrow>
             (case resolveFile host currentProvider (sortConflicts cs)
                     \<lparr>editorDocument = doc, results = rs, world = w1\<rparr> of
                (Return, st) \<Rightarrow> (Inr (results st), world st)
              | (_, st) \<Rightarrow> resolveFiles host currentProvider rest (results st) (world st))))"

text \<open>\<open>Map.prototype.set\<close> on the entries of a map, in insertion order.\<close>

fun mapSet :: "('k \<times> 'v) list \<Rightarrow> 'k \<Rightarrow> 'v \<Rightarrow> ('k \<times> 'v) list" where
  "mapSet [] k v = [(k, v)]"
| "mapSet ((k', v') # m) k v = (if k' = k then (k, v) # m else (k', v') # mapSet m k v)"

fun detectFiles ::
  "'w Host \<Rightarrow> jsstring list \<Rightarrow> (jsstring \<times> MergeConflict list) list \<Rightarrow> 'w \<Rightarrow>
   (jsstring \<times> MergeConflict list) list \<times> 'w" where
  "detectFiles host [] conflictsByFile w = (conflictsByFile, w)"
| "detectFiles host (file # files) conflictsByFile w =
     (case openTextDocument host file w of
        (Inl err, w1) \<Rightarrow> detectFiles host files conflictsByFile w1
      | (Inr doc, w1) \<Rightarrow>
          (let cs = detectConflictsInFile doc in
           detectFiles host files
             (if length cs > 0 then mapSet conflictsByFile file cs else conflictsByFile) w1))"

definition detectAllConflicts ::
  "'w Host \<Rightarrow> 'w \<Rightarrow> (jsstring \<times> MergeConflict list) list \<times> 'w" where
  "detectAllConflicts host w = (case findFiles host w of (files, w1) \<Rightarrow> detectFiles host files [] w1)"

definition resolveAllConflicts ::
  "'w Host \<Rightarrow> 'w AIProvider option \<Rightarrow> 'w \<Rightarrow> (Error + ResolutionResult list) \<times> 'w" where
  "resolveAllConflicts host currentProvider w =
     (case detectAllConflicts host w of
        (allConflicts, w1) \<Rightarrow> resolveFiles host currentProvider allConflicts [] w1)"

subsection \<open>Suggestions\<close>

definition temperatures :: "real list" where
  "temperatures = [0.2, 0.5, 0.8]"

text \<open>
  The loop of \<open>getSuggestions\<close>, from index \<open>i\<close> up to the bound
  \<open>Math.min(count, temperatures.length)\<close>. The body does not read \<open>i\<close>.
\<close>

function suggestionLoop ::
  "'w AIProvider \<Rightarrow> TextDocument \<Rightarrow> MergeConflict \<Rightarrow> int \<Rightarrow> int \<Rightarrow>
   ConflictResolutionResponse list \<Rightarrow> 'w \<Rightarrow> ConflictResolutionResponse list \<times> 'w" where
  "suggestionLoop provider doc c bound i suggestions w =
     (if i < bound then
        (case provider (resolutionRequest doc c) w of
           (Inl err, w') \<Rightarrow> suggestionLoop provider doc c bound (i + 1) suggestions w'
         | (Inr res, w') \<Rightarrow> suggestionLoop provider doc c bound (i + 1) (suggestions @ [res]) w')
      else (suggestions, w))"
  by pat_completeness auto
termination
  by (relation "measure (\<lambda>(provider, doc, c, bound, i, suggestions, w). nat (bound - i))") auto

declare suggestionLoop.simps [simp del]

definition getSuggestions ::
  "'w AIProvider option \<Rightarrow> TextDocument \<Rightarrow> MergeConflict \<Rightarrow> int \<Rightarrow> 'w \<Rightarrow>
   (Error + ConflictResolutionResponse list) \<times> 'w" where
  "getSuggestions currentProvider doc c count w =
     (case getProvider currentProvider of
        Inl err \<Rightarrow> (Inl err, w)
      | Inr provider \<Rightarrow>
          (case suggestionLoop provider doc c (min count (int (length temperatures))) 0 [] w of
             (suggestions, w') \<Rightarrow> (Inr suggestions, w')))"

section \<open>Vocabulary of the specification\<close>

text \<open>
  A line that none of the four patterns of the detector matches: the lines that a
  well-formed conflict block holds between its markers.
\<close>

definition isPlainLine :: "jsstring \<Rightarrow> bool" where
  "isPlainLine l =
     (\<not> regexTest conflictStartPattern l \<and> \<not> regexTest conflictSeparatorPattern l \<and>
      \<not> regexTest conflictBasePattern l \<and> \<not> regexTest conflictEndPattern l)"

text \<open>
  The start pattern as the specification writes it, \<open>^<{7}\s+\S.*$\<close>: a label that starts
  with a character other than white space is required after the white space.
\<close>

definition spec_startPattern :: "item list" where
  "spec_startPattern = [Exactly 7 (Lit 0x3C), OneOrMore Space, One NonSpace, ZeroOrMore Dot]"

text \<open>
  What holds of the parser state before line \<open>i\<close> is read: every pushed record starts at
  a line that exists, ends after it starts and before line \<open>i\<close>; the records follow each
  other without overlap; the unfinished block starts before line \<open>i\<close> and after the end of
  every pushed record.
\<close>

definition parseInv :: "int \<Rightarrow> ParseState \<Rightarrow> bool" where
  "parseInv i st =
     (list_all (\<lambda>c. 0 \<le> startLine c \<and> startLine c < endLine c \<and> endLine c < i) (conflicts st) \<and>
      sorted_wrt (\<lambda>a b. endLine a < startLine b) (conflicts st) \<and>
      (case currentConflict st of
         None \<Rightarrow> True
       | Some p \<Rightarrow> 0 \<le> startLine p \<and> startLine p < i \<and>
           list_all (\<lambda>c. endLine c < startLine p) (conflicts st)))"

text \<open>An entry of the map of \<open>detectAllConflicts\<close> whose conflicts the detector returned.\<close>

definition detectedEntry :: "jsstring \<times> MergeConflict list \<Rightarrow> bool" where
  "detectedEntry e = (\<exists>doc. snd e = detectConflictsInFile doc)"

text \<open>
  A host on which a batch runs to its end: the token is never cancelled, the user never
  chooses \<open>Cancel\<close>, and every document opens.
\<close>

definition neverCancels :: "'w Host \<Rightarrow> bool" where
  "neverCancels host =
     ((\<forall>w. \<not> isCancellationRequested host w) \<and>
      (\<forall>w. fst (showErrorMessage host w) \<noteq> Some (str ''Cancel'')) \<and>
      (\<forall>w. fst (showWarningMessage host w) \<noteq> Some (str ''Cancel'')) \<and>
      (\<forall>path w. \<exists>doc. fst (openTextDocument host path w) = Inr doc))"

section \<open>Test doubles\<close>

text \<open>
  Providers and hosts for concrete runs, after the mock provider of the repository's
  tests: a provider that answers every request with one resolution, a provider that
  fails, a host whose transport answers every call with one reply that does not parse, and
  a host that moreover records the temperature of every call in the world.
\<close>

definition fixedProvider :: "jsstring \<Rightarrow> 'w AIProvider" where
  "fixedProvider text request w =
     (Inr \<lparr>resolution = text, explanation = str ''mock'', confidence = 0.9,
           alternatives = None\<rparr>, w)"

definition failingProvider :: "jsstring \<Rightarrow> 'w AIProvider" where
  "failingProvider msg request w = (Inl (Error msg), w)"

definition replyingHost :: "jsstring \<Rightarrow> unit Host" where
  "replyingHost reply =
     \<lparr>transport = (\<lambda>kind call w. (Inr reply, w)),
      jsonParse = (\<lambda>s. None),
      typeErrorMessage = str ''Cannot read properties of null'',
      isCancellationRequested = (\<lambda>w. False),
      applyEdit = (\<lambda>w. (True, w)),
      showWarningMessage = (\<lambda>w. (None, w)),
      showErrorMessage = (\<lambda>w. (None, w)),
      openTextDocument = (\<lambda>path w. (Inl (Error (str ''no such file'')), w)),
      findFiles = (\<lambda>w. ([], w))\<rparr>"

definition loggingHost :: "jsstring \<Rightarrow> (real list) Host" where
  "loggingHost reply =
     \<lparr>transport = (\<lambda>kind call w. (Inr reply, w @ [callTemperature call])),
      jsonParse = (\<lambda>s. None),
      typeErrorMessage = str ''Cannot read properties of null'',
      isCancellationRequested = (\<lambda>w. False),
      applyEdit = (\<lambda>w. (True, w)),
      showWarningMessage = (\<lambda>w. (None, w)),
      showErrorMessage = (\<lambda>w. (None, w)),
      openTextDocument = (\<lambda>path w. (Inl (Error (str ''no such file'')), w)),
      findFiles = (\<lambda>w. ([], w))\<rparr>"

text \<open>A document with two conflict blocks, and the two records the detector returns for it.\<close>

definition twoBlocks :: TextDocument where
  "twoBlocks =
     \<lparr>getText = str ''<<<<<<< A\<newline>x\<newline>=======\<newline>y\<newline>>>>>>>> a\<newline>mid\<newline><<<<<<< B\<newline>u\<newline>=======\<newline>v\<newline>>>>>>>> b'',
      fileName = str ''f.js'', languageId = str ''javascript''\<rparr>"

definition firstBlock :: MergeConflict where
  "firstBlock =
     \<lparr>startLine = 0, currentStart = 1, filePath = str ''f.js'', currentEnd = Some 1,
      separatorLine = Some 2, incomingStart = Some 3, endLine = 4, incomingEnd = 3,
      currentContent = str ''x'', incomingContent = str ''y'', baseContent = None\<rparr>"

definition secondBlock :: MergeConflict where
  "secondBlock =
     \<lparr>startLine = 6, currentStart = 7, filePath = str ''f.js'', currentEnd = Some 7,
      separatorLine = Some 8, incomingStart = Some 9, endLine = 10, incomingEnd = 9,
      currentContent = str ''u'', incomingContent = str ''v'', baseContent = None\<rparr>"

text \<open>
  A workspace with one file, the given document: the host lists its path and opens it,
  applies every edit and is never cancelled.
\<close>

definition workspaceHost :: "TextDocument \<Rightarrow> unit Host" where
  "workspaceHost doc =
     \<lparr>transport = (\<lambda>kind call w. (Inr [], w)),
      jsonParse = (\<lambda>s. None),
      typeErrorMessage = str ''Cannot read properties of null'',
      isCancellationRequested = (\<lambda>w. False),
      applyEdit = (\<lambda>w. (True, w)),
      showWarningMessage = (\<lambda>w. (None, w)),
      showErrorMessage = (\<lambda>w. (None, w)),
      openTextDocument = (\<lambda>path w. (Inr doc, w)),
      findFiles = (\<lambda>w. ([fileName doc], w))\<rparr>"

section \<open>Properties of the regular expressions\<close>

lemma regexTest_Exactly:
  "regexTest (Exactly n k # r) s =
     (n \<le> length s \<and> list_all (accepts k) (take n s) \<and> regexTest r (drop n s))"
proof (induction n arbitrary: s)
  case 0
  show ?case by simp
next
  case (Suc n)
  show ?case by (cases s) (auto simp: Suc)
qed

lemma regexTest_ZeroOrMore:
  "regexTest (ZeroOrMore k # r) s =
     (\<exists>a t. s = a @ t \<and> list_all (accepts k) a \<and> regexTest r t)"
proof (induction s)
  case Nil
  show ?case by simp
next
  case (Cons c cs)
  show ?case
  proof
    assume "regexTest (ZeroOrMore k # r) (c # cs)"
    then consider "accepts k c" "regexTest (ZeroOrMore k # r) cs" | "regexTest r (c # cs)"
      by auto
    then show "\<exists>a t. c # cs = a @ t \<and> list_all (accepts k) a \<and> regexTest r t"
    proof cases
      case 1
      then obtain a t where "cs = a @ t" "list_all (accepts k) a" "regexTest r t"
        using Cons.IH by auto
      then have "c # cs = (c # a) @ t \<and> list_all (accepts k) (c # a) \<and> regexTest r t"
        using 1 by simp
      then show ?thesis by blast
    next
      case 2
      then have "c # cs = [] @ (c # cs) \<and> list_all (accepts k) [] \<and> regexTest r (c # cs)"
        by simp
      then show ?thesis by blast
    qed
  next
    assume "\<exists>a t. c # cs = a @ t \<and> list_all (accepts k) a \<and> regexTest r t"
    then obtain a t where at: "c # cs = a @ t" "list_all (accepts k) a" "regexTest r t"
      by blast
    show "regexTest (ZeroOrMore k # r) (c # cs)"
    proof (cases a)
      case Nil
      then have "regexTest r (c # cs)" using at by simp
      then show ?thesis by simp
    next
      case (Cons b bs)
      then have "cs = bs @ t" "accepts k c" "list_all (accepts k) bs" using at by auto
      then have "regexTest (ZeroOrMore k # r) cs" using Cons.IH at(3) by blast
      then show ?thesis using \<open>accepts k c\<close> by simp
    qed
  qed
qed

lemma regexTest_OneOrMore:
  "regexTest (OneOrMore k # r) s =
     (\<exists>a t. s = a @ t \<and> a \<noteq> [] \<and> list_all (accepts k) a \<and> regexTest r t)"
proof (cases s)
  case Nil
  then show ?thesis by simp
next
  case (Cons c cs)
  show ?thesis
  proof
    assume "regexTest (OneOrMore k # r) s"
    then have c: "accepts k c" and "regexTest (ZeroOrMore k # r) cs" using Cons by auto
    then obtain a t where "cs = a @ t" "list_all (accepts k) a" "regexTest r t"
      unfolding regexTest_ZeroOrMore by blast
    then have "s = (c # a) @ t \<and> c # a \<noteq> [] \<and> list_all (accepts k) (c # a) \<and> regexTest r t"
      using c Cons by simp
    then show "\<exists>a t. s = a @ t \<and> a \<noteq> [] \<and> list_all (accepts k) a \<and> regexTest r t"
      by blast
  next
    assume "\<exists>a t. s = a @ t \<and> a \<noteq> [] \<and> list_all (accepts k) a \<and> regexTest r t"
    then obtain a t where at: "s = a @ t" "a \<noteq> []" "list_all (accepts k) a" "regexTest r t"
      by blast
    then obtain b bs where a: "a = b # bs" by (cases a) auto
    then have "cs = bs @ t" "accepts k c" "list_all (accepts k) bs" using at Cons by auto
    then have "regexTest (ZeroOrMore k # r) cs" unfolding regexTest_ZeroOrMore using at(4) by blast
    then show "regexTest (OneOrMore k # r) s" using Cons \<open>accepts k c\<close> by simp
  qed
qed

lemma list_all_Lit: "list_all (accepts (Lit a)) xs = (xs = replicate (length xs) a)"
  by (induction xs) auto

lemma marker_pattern:
  "regexTest [Exactly n (Lit m), OneOrMore Space, ZeroOrMore Dot] s =
     (\<exists>ws rest. s = replicate n m @ ws @ rest \<and> ws \<noteq> [] \<and> list_all isWhiteSpace ws \<and>
        list_all (\<lambda>c. \<not> isLineTerminator c) rest)"
  (is "?L = ?R")
proof
  assume ?L
  then have n: "n \<le> length s" and lit: "list_all (accepts (Lit m)) (take n s)"
    and rest: "regexTest [OneOrMore Space, ZeroOrMore Dot] (drop n s)"
    unfolding regexTest_Exactly by auto
  from rest obtain ws t where d: "drop n s = ws @ t" "ws \<noteq> []" "list_all (accepts Space) ws"
    and t: "regexTest [ZeroOrMore Dot] t"
    unfolding regexTest_OneOrMore by blast
  from t obtain a u where "t = a @ u" "list_all (accepts Dot) a" "regexTest [] u"
    unfolding regexTest_ZeroOrMore by blast
  then have t': "list_all (accepts Dot) t" by simp
  have "take n s = replicate n m" using lit n by (simp add: list_all_Lit)
  then have "s = replicate n m @ ws @ t" using d(1) by (metis append_take_drop_id)
  moreover have "list_all isWhiteSpace ws" using d(3) by (simp add: list_all_iff)
  moreover have "list_all (\<lambda>c. \<not> isLineTerminator c) t" using t' by (simp add: list_all_iff)
  ultimately show ?R using d(2) by blast
next
  assume ?R
  then obtain ws rest where s: "s = replicate n m @ ws @ rest" and ws: "ws \<noteq> []"
    "list_all isWhiteSpace ws" and rest: "list_all (\<lambda>c. \<not> isLineTerminator c) rest"
    by blast
  have "regexTest [ZeroOrMore Dot] rest"
    unfolding regexTest_ZeroOrMore using rest
    by (intro exI[of _ rest] exI[of _ "[]"]) (simp add: list_all_iff)
  then have "regexTest [OneOrMore Space, ZeroOrMore Dot] (ws @ rest)"
    unfolding regexTest_OneOrMore using ws
    by (intro exI[of _ ws] exI[of _ rest]) (simp add: list_all_iff)
  then show ?L unfolding regexTest_Exactly s by (simp add: list_all_Lit)
qed

lemma separator_pattern: "regexTest [Exactly n (Lit m)] s = (s = replicate n m)"
  unfolding regexTest_Exactly by (auto simp: list_all_Lit)


section \<open>Properties of the parser\<close>

lemma first_char:
  assumes "0 < n" "regexTest (Exactly n (Lit m) # r) s"
  shows "\<exists>t. s = m # t"
proof -
  from assms obtain k where "n = Suc k" by (cases n) auto
  with assms(2) show ?thesis by (cases s) auto
qed

lemma start_first: "regexTest conflictStartPattern l \<Longrightarrow> \<exists>t. l = 0x3C # t"
  unfolding conflictStartPattern_def by (rule first_char) simp_all
lemma separator_first: "regexTest conflictSeparatorPattern l \<Longrightarrow> \<exists>t. l = 0x3D # t"
  unfolding conflictSeparatorPattern_def by (rule first_char) simp_all
lemma end_first: "regexTest conflictEndPattern l \<Longrightarrow> \<exists>t. l = 0x3E # t"
  unfolding conflictEndPattern_def by (rule first_char) simp_all
lemma base_first: "regexTest conflictBasePattern l \<Longrightarrow> \<exists>t. l = 0x7C # t"
  unfolding conflictBasePattern_def by (rule first_char) simp_all

lemma separator_not_start:
  "regexTest conflictSeparatorPattern l \<Longrightarrow> \<not> regexTest conflictStartPattern l"
  using separator_first start_first by fastforce

lemma end_not_other:
  "regexTest conflictEndPattern l \<Longrightarrow>
     \<not> regexTest conflictStartPattern l \<and> \<not> regexTest conflictSeparatorPattern l \<and>
     \<not> regexTest conflictBasePattern l"
  using end_first start_first separator_first base_first by fastforce

lemma parseLines_append:
  "parseLines file i (xs @ ys) st =
     parseLines file (i + int (length xs)) ys (parseLines file i xs st)"
  by (induction xs arbitrary: i st) (simp_all add: add.assoc)

lemma parseLine_outside:
  "\<not> inConflict st \<Longrightarrow> \<not> regexTest conflictStartPattern l \<Longrightarrow> parseLine file i l st = st"
  by (simp add: parseLine_def)

lemma parseLines_outside:
  "\<not> inConflict st \<Longrightarrow> list_all (\<lambda>l. \<not> regexTest conflictStartPattern l) ls \<Longrightarrow>
     parseLines file i ls st = st"
  by (induction ls arbitrary: i) (simp_all add: parseLine_outside)

lemma parseLine_start:
  "regexTest conflictStartPattern l \<Longrightarrow>
   parseLine file i l st =
     \<lparr>conflicts = conflicts st, inConflict = True,
      currentConflict = Some \<lparr>startLine = i, currentStart = i + 1, filePath = file,
        currentEnd = None, separatorLine = None, incomingStart = None\<rparr>,
      section' = Current, currentLines = [], baseLines = [], incomingLines = []\<rparr>"
  by (simp add: parseLine_def)

lemma parseLine_conflicts_no_end:
  "\<not> regexTest conflictEndPattern l \<Longrightarrow> conflicts (parseLine file i l st) = conflicts st"
  by (simp add: parseLine_def split: sectionTag.split)

lemma parseLines_conflicts_no_end:
  "list_all (\<lambda>l. \<not> regexTest conflictEndPattern l) ls \<Longrightarrow>
     conflicts (parseLines file i ls st) = conflicts st"
  by (induction ls arbitrary: i st) (simp_all add: parseLine_conflicts_no_end)

lemma parseLine_plain:
  "inConflict st \<Longrightarrow> isPlainLine l \<Longrightarrow>
   parseLine file i l st =
     (case section' st of
        Current \<Rightarrow> st\<lparr>currentLines := currentLines st @ [l]\<rparr>
      | Base \<Rightarrow> st\<lparr>baseLines := baseLines st @ [l]\<rparr>
      | Incoming \<Rightarrow> st\<lparr>incomingLines := incomingLines st @ [l]\<rparr>)"
  by (simp add: parseLine_def isPlainLine_def)

lemma parseLines_plain_current:
  "inConflict st \<Longrightarrow> section' st = Current \<Longrightarrow> list_all isPlainLine ls \<Longrightarrow>
     parseLines file i ls st = st\<lparr>currentLines := currentLines st @ ls\<rparr>"
  by (induction ls arbitrary: i st) (simp_all add: parseLine_plain)

lemma parseLines_plain_incoming:
  "inConflict st \<Longrightarrow> section' st = Incoming \<Longrightarrow> list_all isPlainLine ls \<Longrightarrow>
     parseLines file i ls st = st\<lparr>incomingLines := incomingLines st @ ls\<rparr>"
  by (induction ls arbitrary: i st) (simp_all add: parseLine_plain)

lemma parseLine_conflicts_prefix:
  "parseLine file i l (st\<lparr>conflicts := cs @ conflicts st\<rparr>) =
     (parseLine file i l st)\<lparr>conflicts := cs @ conflicts (parseLine file i l st)\<rparr>"
  by (simp add: parseLine_def finishConflict_def split: sectionTag.split option.split)

lemma parseLines_conflicts_prefix:
  "parseLines file i ls (st\<lparr>conflicts := cs @ conflicts st\<rparr>) =
     (parseLines file i ls st)\<lparr>conflicts := cs @ conflicts (parseLines file i ls st)\<rparr>"
proof (induction ls arbitrary: i st)
  case Nil
  show ?case by simp
next
  case (Cons l ls)
  show ?case by (simp add: parseLine_conflicts_prefix Cons.IH)
qed

lemma parseLine_endLine_bound:
  "list_all (\<lambda>c. endLine c < i) (conflicts st) \<Longrightarrow>
     list_all (\<lambda>c. endLine c < i + 1) (conflicts (parseLine file i l st))"
  by (auto simp: parseLine_def finishConflict_def list_all_iff split: sectionTag.split option.split)

lemma parseLines_endLine_bound:
  "list_all (\<lambda>c. endLine c < i) (conflicts st) \<Longrightarrow>
     list_all (\<lambda>c. endLine c < i + int (length ls)) (conflicts (parseLines file i ls st))"
proof (induction ls arbitrary: i st)
  case Nil
  then show ?case by simp
next
  case (Cons l ls)
  have "list_all (\<lambda>c. endLine c < (i + 1) + int (length ls))
          (conflicts (parseLines file (i + 1) ls (parseLine file i l st)))"
    by (rule Cons.IH) (rule parseLine_endLine_bound [OF Cons.prems])
  moreover have "(i + 1) + int (length ls) = i + int (length (l # ls))" by simp
  ultimately show ?case by (simp only: parseLines.simps)
qed

lemma parseLine_separator:
  assumes "regexTest conflictSeparatorPattern l" "inConflict st" "currentConflict st = Some p"
  shows "parseLine file i l st =
     st\<lparr>currentConflict := Some (p\<lparr>currentEnd := Some (i - 1), separatorLine := Some i,
          incomingStart := Some (i + 1)\<rparr>), section' := Incoming\<rparr>"
  using assms separator_not_start [OF assms(1)] by (simp add: parseLine_def)

lemma parseLine_end:
  assumes "regexTest conflictEndPattern l" "inConflict st" "currentConflict st = Some p"
  shows "parseLine file i l st =
     st\<lparr>conflicts := conflicts st @ [finishConflict p i st], inConflict := False,
        currentConflict := None\<rparr>"
  using assms end_not_other [OF assms(1)] by (simp add: parseLine_def)

lemma parseLines_append_eq:
  "parseLines file i xs st = st' \<Longrightarrow> parseLines file (i + int (length xs)) ys st' = st'' \<Longrightarrow>
     parseLines file i (xs @ ys) st = st''"
  by (simp add: parseLines_append)

lemma parseLines_Cons_eq:
  "parseLine file i l st = st' \<Longrightarrow> parseLines file (i + 1) ls st' = st'' \<Longrightarrow>
     parseLines file i (l # ls) st = st''"
  by simp

text \<open>Evaluation of the patterns on literal lines.\<close>

lemmas regex_eval = regexTest_Exactly str_def conflictStartPattern_def conflictSeparatorPattern_def
  conflictEndPattern_def conflictBasePattern_def isWhiteSpace_def isLineTerminator_def isPlainLine_def

section \<open>Claims about the conflict detector\<close>

text \<open>
  Claim C1. A document whose lines are some lines without a start marker, then one
  well-formed 2-way block (a start marker, \<open>N\<close> plain lines, a separator, \<open>M\<close> plain
  lines, an end marker), then again lines without a start marker: \<open>detectConflictsInFile\<close>
  returns exactly one record, whose \<open>currentContent\<close> and \<open>incomingContent\<close> are the
  joined lines of the two sections and whose \<open>endLine - startLine\<close> is \<open>N + M + 2\<close>.
  Markers and plain lines are those of the detector's own patterns.
\<close>

theorem two_way_block_detected:
  assumes lines: "splitNL (getText document) = pre @ start # cur @ sep # inc @ end # post"
    and pre: "list_all (\<lambda>l. \<not> regexTest conflictStartPattern l) pre"
    and start: "regexTest conflictStartPattern start"
    and cur: "list_all isPlainLine cur"
    and sep: "regexTest conflictSeparatorPattern sep"
    and inc: "list_all isPlainLine inc"
    and "end": "regexTest conflictEndPattern end"
    and post: "list_all (\<lambda>l. \<not> regexTest conflictStartPattern l) post"
  shows "\<exists>c. detectConflictsInFile document = [c] \<and>
            currentContent c = joinNL cur \<and> incomingContent c = joinNL inc \<and>
            endLine c - startLine c = int (length cur) + int (length inc) + 2 \<and>
            startLine c = int (length pre) \<and>
            separatorLine c = Some (int (length pre) + int (length cur) + 1) \<and>
            baseContent c = None \<and> filePath c = fileName document"
proof -
  let ?f = "fileName document"
  let ?p = "0 + int (length pre)"
  let ?i2 = "?p + 1 + int (length cur)"
  let ?e = "?i2 + 1 + int (length inc)"
  define pc where "pc = \<lparr>startLine = ?p, currentStart = ?p + 1, filePath = ?f,
    currentEnd = None, separatorLine = None, incomingStart = None\<rparr>"
  define s1 where "s1 = \<lparr>conflicts = [], inConflict = True, currentConflict = Some pc,
    section' = Current, currentLines = [], baseLines = [], incomingLines = []\<rparr>"
  define pc' where "pc' = pc\<lparr>currentEnd := Some (?i2 - 1),
    separatorLine := Some ?i2, incomingStart := Some (?i2 + 1)\<rparr>"
  define s2 where "s2 = s1\<lparr>currentLines := cur\<rparr>"
  define s3 where "s3 = s2\<lparr>currentConflict := Some pc', section' := Incoming\<rparr>"
  define s4 where "s4 = s3\<lparr>incomingLines := inc\<rparr>"
  define c where "c = finishConflict pc' ?e s4"
  define s5 where "s5 = s4\<lparr>conflicts := [c], inConflict := False, currentConflict := None\<rparr>"
  have a0: "parseLines ?f 0 pre initialState = initialState"
    by (rule parseLines_outside [OF _ pre]) (simp add: initialState_def)
  have a1: "parseLine ?f ?p start initialState = s1"
    by (simp add: parseLine_start [OF start] s1_def pc_def initialState_def)
  have a2: "parseLines ?f (?p + 1) cur s1 = s2"
    using parseLines_plain_current [OF _ _ cur, of s1 ?f "?p + 1"]
    by (simp add: s1_def s2_def)
  have a3: "parseLine ?f ?i2 sep s2 = s3"
    using parseLine_separator [OF sep, of s2 pc ?f ?i2]
    by (simp add: s1_def s2_def s3_def pc'_def)
  have a4: "parseLines ?f (?i2 + 1) inc s3 = s4"
    using parseLines_plain_incoming [OF _ _ inc, of s3 ?f "?i2 + 1"]
    by (simp add: s1_def s2_def s3_def s4_def)
  have a5: "parseLine ?f ?e end s4 = s5"
    using parseLine_end [OF "end", of s4 pc' ?f ?e]
    by (simp add: s1_def s2_def s3_def s4_def s5_def c_def)
  have a6: "parseLines ?f (?e + 1) post s5 = s5"
    by (rule parseLines_outside [OF _ post]) (simp add: s5_def)
  have b5: "parseLines ?f ?e (end # post) s4 = s5"
    by (rule parseLines_Cons_eq [OF a5 a6])
  have b4: "parseLines ?f (?i2 + 1) (inc @ end # post) s3 = s5"
    by (rule parseLines_append_eq [OF a4 b5])
  have b3: "parseLines ?f ?i2 (sep # inc @ end # post) s2 = s5"
    by (rule parseLines_Cons_eq [OF a3 b4])
  have b2: "parseLines ?f (?p + 1) (cur @ sep # inc @ end # post) s1 = s5"
    by (rule parseLines_append_eq [OF a2 b3])
  have b1: "parseLines ?f ?p (start # cur @ sep # inc @ end # post) initialState = s5"
    by (rule parseLines_Cons_eq [OF a1 b2])
  have b0: "parseLines ?f 0 (pre @ start # cur @ sep # inc @ end # post) initialState = s5"
    by (rule parseLines_append_eq [OF a0 b1])
  have "detectConflictsInFile document = [c]"
    by (simp add: detectConflictsInFile_def lines b0 s5_def)
  moreover have "currentContent c = joinNL cur"
    by (simp add: c_def finishConflict_def s4_def s3_def s2_def s1_def)
  moreover have "incomingContent c = joinNL inc"
    by (simp add: c_def finishConflict_def s4_def s3_def s2_def s1_def)
  moreover have "endLine c - startLine c = int (length cur) + int (length inc) + 2"
    by (simp add: c_def finishConflict_def pc'_def pc_def)
  moreover have "startLine c = int (length pre)"
    by (simp add: c_def finishConflict_def pc'_def pc_def)
  moreover have "separatorLine c = Some (int (length pre) + int (length cur) + 1)"
    by (simp add: c_def finishConflict_def pc'_def pc_def)
  moreover have "baseContent c = None"
    by (simp add: c_def finishConflict_def s4_def s3_def s2_def s1_def)
  moreover have "filePath c = fileName document"
    by (simp add: c_def finishConflict_def pc'_def pc_def)
  ultimately show ?thesis by blast
qed

theorem two_way_block_detected_witness:
  "\<exists>c. detectConflictsInFile
          \<lparr>getText = str ''a\<newline><<<<<<< HEAD\<newline>x\<newline>y\<newline>=======\<newline>z\<newline>>>>>>>> f\<newline>b'',
           fileName = str ''f.js'', languageId = str ''javascript''\<rparr> = [c] \<and>
        currentContent c = str ''x\<newline>y'' \<and> incomingContent c = str ''z'' \<and>
        endLine c - startLine c = 5 \<and> startLine c = 1 \<and> separatorLine c = Some 4 \<and>
        baseContent c = None \<and> filePath c = str ''f.js''"
proof -
  let ?d = "\<lparr>getText = str ''a\<newline><<<<<<< HEAD\<newline>x\<newline>y\<newline>=======\<newline>z\<newline>>>>>>>> f\<newline>b'',
           fileName = str ''f.js'', languageId = str ''javascript''\<rparr>"
  have 1: "splitNL (getText ?d) = [str ''a''] @ str ''<<<<<<< HEAD'' # [str ''x'', str ''y''] @
      str ''======='' # [str ''z''] @ str ''>>>>>>> f'' # [str ''b'']"
    by (simp add: str_def)
  have 2: "list_all (\<lambda>l. \<not> regexTest conflictStartPattern l) [str ''a'']"
    by (simp add: regex_eval)
  have 3: "regexTest conflictStartPattern (str ''<<<<<<< HEAD'')"
    by (simp add: regex_eval)
  have 4: "list_all isPlainLine [str ''x'', str ''y'']"
    by (simp add: regex_eval)
  have 5: "regexTest conflictSeparatorPattern (str ''======='')"
    by (simp add: regex_eval)
  have 6: "list_all isPlainLine [str ''z'']"
    by (simp add: regex_eval)
  have 7: "regexTest conflictEndPattern (str ''>>>>>>> f'')"
    by (simp add: regex_eval)
  have 8: "list_all (\<lambda>l. \<not> regexTest conflictStartPattern l) [str ''b'']"
    by (simp add: regex_eval)
  show ?thesis
    using two_way_block_detected [OF 1 2 3 4 5 6 7 8] by (simp add: str_def)
qed

text \<open>
  Claim C2. When a start-marker line is followed by no end-marker line up to the end of
  the input, the block it opens yields no record: the result is what the lines before
  that start marker had already produced, and every returned record ends before it. The
  parser is a total function, so it returns a list for every input.
\<close>

theorem unterminated_block_yields_no_conflict:
  assumes lines: "splitNL (getText document) = pre @ start # rest"
    and start: "regexTest conflictStartPattern start"
    and rest: "list_all (\<lambda>l. \<not> regexTest conflictEndPattern l) rest"
  shows "detectConflictsInFile document =
           conflicts (parseLines (fileName document) 0 pre initialState) \<and>
         list_all (\<lambda>c. endLine c < int (length pre)) (detectConflictsInFile document)"
proof -
  define fname where "fname = fileName document"
  define st where "st = parseLines fname 0 pre initialState"
  have "conflicts (parseLines fname 0 (pre @ start # rest) initialState) =
        conflicts (parseLine fname (int (length pre)) start st)"
    by (simp add: parseLines_append parseLines_conflicts_no_end [OF rest] st_def)
  also have "\<dots> = conflicts st"
    by (simp add: parseLine_start [OF start])
  finally have eq: "detectConflictsInFile document = conflicts st"
    by (simp add: detectConflictsInFile_def lines fname_def)
  have "list_all (\<lambda>c. endLine c < 0 + int (length pre)) (conflicts st)"
    unfolding st_def by (rule parseLines_endLine_bound) (simp add: initialState_def)
  then show ?thesis using eq by (simp add: st_def fname_def)
qed

theorem unterminated_block_yields_no_conflict_witness:
  "detectConflictsInFile
     \<lparr>getText = str ''a\<newline><<<<<<< HEAD\<newline>x\<newline>=======\<newline>y'',
      fileName = str ''f.js'', languageId = str ''javascript''\<rparr> = []"
proof -
  let ?d = "\<lparr>getText = str ''a\<newline><<<<<<< HEAD\<newline>x\<newline>=======\<newline>y'',
      fileName = str ''f.js'', languageId = str ''javascript''\<rparr>"
  have 1: "splitNL (getText ?d) = [str ''a''] @ str ''<<<<<<< HEAD'' # [str ''x'', str ''======='', str ''y'']"
    by (simp add: str_def)
  have 2: "regexTest conflictStartPattern (str ''<<<<<<< HEAD'')"
    by (simp add: regex_eval)
  have 3: "list_all (\<lambda>l. \<not> regexTest conflictEndPattern l) [str ''x'', str ''======='', str ''y'']"
    by (simp add: regex_eval)
  have "detectConflictsInFile ?d = conflicts (parseLines (fileName ?d) 0 [str ''a''] initialState)"
    using unterminated_block_yields_no_conflict [OF 1 2 3] by (rule conjunct1)
  also have "\<dots> = []"
    by (simp add: parseLine_def initialState_def regex_eval)
  finally show ?thesis .
qed

text \<open>
  Claim C3 says that every returned record has \<open>startLine < separatorLine < endLine\<close>
  with \<open>separatorLine\<close> defined. The end branch pushes the record without checking that a
  separator was read: a start marker followed by an end marker gives a record whose
  \<open>separatorLine\<close>, \<open>currentEnd\<close> and \<open>incomingStart\<close> are undefined, although the
  interface \<open>MergeConflict\<close> declares them as numbers.
\<close>

theorem block_without_separator_is_emitted:
  "detectConflictsInFile
     \<lparr>getText = str ''<<<<<<< HEAD\<newline>foo\<newline>>>>>>>> feature'',
      fileName = str ''f.js'', languageId = str ''javascript''\<rparr> =
   [\<lparr>startLine = 0, currentStart = 1, filePath = str ''f.js'', currentEnd = None,
     separatorLine = None, incomingStart = None, endLine = 2, incomingEnd = 1,
     currentContent = str ''foo'', incomingContent = [], baseContent = None\<rparr>]"
  by (simp add: detectConflictsInFile_def parseLine_def initialState_def finishConflict_def regex_eval)

text \<open>
  Claim C4 says that \<open>hasConflicts\<close> is true when the three kinds of marker lines are
  present in the text. The three patterns are tested against the whole text, and without
  the \<open>m\<close> flag \<open>^\<close> and \<open>$\<close> are the ends of the text: the separator pattern holds only
  of the text \<open>=======\<close>, the start pattern only of a text that begins with \<open><\<close>, so the
  conjunction is false for every document.
\<close>

lemma hasConflicts_never: "\<not> hasConflicts document"
  unfolding hasConflicts_def using separator_first start_first by fastforce

text \<open>
  Claim C4, on a document that holds one complete conflict block (which the detector
  finds): \<open>hasConflicts\<close> is false.
\<close>

theorem hasConflicts_false_on_conflict_block:
  "hasConflicts
     \<lparr>getText = str ''<<<<<<< HEAD\<newline>foo\<newline>=======\<newline>bar\<newline>>>>>>>> feature'',
      fileName = str ''f.js'', languageId = str ''javascript''\<rparr> = False \<and>
   length (detectConflictsInFile
     \<lparr>getText = str ''<<<<<<< HEAD\<newline>foo\<newline>=======\<newline>bar\<newline>>>>>>>> feature'',
      fileName = str ''f.js'', languageId = str ''javascript''\<rparr>) = 1"
  by (simp add: hasConflicts_def detectConflictsInFile_def parseLine_def initialState_def finishConflict_def regex_eval)

text \<open>
  Claim C5 as stated fails: the patterns of the code are \<open>^<{7}\s+(.*)$\<close> and its like,
  which do not ask for a label, so seven \<open><\<close> and one space are a start marker for the
  code, and not for the pattern of the specification.
\<close>

theorem label_is_optional_counterexample:
  "regexTest conflictStartPattern (str ''<<<<<<< '') \<and>
   \<not> regexTest spec_startPattern (str ''<<<<<<< '') \<and>
   inConflict (parseLine (str ''f.js'') 0 (str ''<<<<<<< '') initialState)"
  by (simp add: parseLine_def initialState_def spec_startPattern_def regex_eval)

text \<open>
  Claim C5, amended. A line is a start, base or end marker exactly when it is seven
  \<open><\<close>, \<open>|\<close> or \<open>>\<close>, then one or more white-space characters, then any characters
  other than line terminators (possibly none); it is a separator exactly when it is seven
  \<open>=\<close>. In particular seven \<open><\<close> followed by white space only (at least one
  character of it) are a start marker and open a conflict in every parser state, and
  seven \<open><\<close> alone are not.
\<close>

theorem marker_patterns:
  "(regexTest conflictStartPattern l =
      (\<exists>w rest. l = replicate 7 0x3C @ w @ rest \<and> w \<noteq> [] \<and> list_all isWhiteSpace w \<and>
         list_all (\<lambda>c. \<not> isLineTerminator c) rest)) \<and>
   (regexTest conflictBasePattern l =
      (\<exists>w rest. l = replicate 7 0x7C @ w @ rest \<and> w \<noteq> [] \<and> list_all isWhiteSpace w \<and>
         list_all (\<lambda>c. \<not> isLineTerminator c) rest)) \<and>
   (regexTest conflictSeparatorPattern l = (l = replicate 7 0x3D)) \<and>
   (regexTest conflictEndPattern l =
      (\<exists>w rest. l = replicate 7 0x3E @ w @ rest \<and> w \<noteq> [] \<and> list_all isWhiteSpace w \<and>
         list_all (\<lambda>c. \<not> isLineTerminator c) rest)) \<and>
   (ws \<noteq> [] \<and> list_all isWhiteSpace ws \<longrightarrow>
      regexTest conflictStartPattern (replicate 7 0x3C @ ws) \<and>
      inConflict (parseLine file i (replicate 7 0x3C @ ws) st) \<and>
      currentConflict (parseLine file i (replicate 7 0x3C @ ws) st) =
        Some \<lparr>startLine = i, currentStart = i + 1, filePath = file, currentEnd = None,
              separatorLine = None, incomingStart = None\<rparr>) \<and>
   \<not> regexTest conflictStartPattern (replicate 7 0x3C)"
proof -
  have a: "regexTest conflictStartPattern (replicate 7 0x3C @ ws)"
    if "ws \<noteq> []" "list_all isWhiteSpace ws"
  proof -
    have "replicate 7 0x3C @ ws = replicate 7 0x3C @ ws @ [] \<and> ws \<noteq> [] \<and>
        list_all isWhiteSpace ws \<and> list_all (\<lambda>c. \<not> isLineTerminator c) []"
      using that by simp
    then show ?thesis
      unfolding conflictStartPattern_def marker_pattern by blast
  qed
  have b: "\<not> regexTest conflictStartPattern (replicate 7 0x3C)"
    unfolding conflictStartPattern_def marker_pattern by auto
  show ?thesis
    using a b parseLine_start
    by (simp add: conflictStartPattern_def conflictBasePattern_def conflictEndPattern_def
        conflictSeparatorPattern_def marker_pattern separator_pattern)
qed

theorem marker_patterns_witness:
  "regexTest conflictStartPattern (str ''<<<<<<< '' @ [0x09]) \<and>
   regexTest conflictStartPattern (str ''<<<<<<< HEAD'') \<and>
   \<not> regexTest conflictStartPattern (str ''<<<<<<<'') \<and>
   \<not> regexTest conflictStartPattern (str ''<<<<<<< HEAD'' @ [0x0D])"
proof -
  have 1: "[0x20, 0x09] \<noteq> ([] :: jsstring)" by simp
  have 2: "list_all isWhiteSpace [0x20, 0x09]" by (simp add: isWhiteSpace_def)
  have 3: "str ''<<<<<<< '' @ [0x09] = replicate 7 0x3C @ [0x20, 0x09]"
    by (simp add: str_def eval_nat_numeral)
  have 4: "str ''<<<<<<<'' = replicate 7 0x3C"
    by (simp add: str_def eval_nat_numeral)
  have 5: "regexTest conflictStartPattern (str ''<<<<<<< HEAD'')"
    by (simp add: regex_eval)
  have 6: "\<not> regexTest conflictStartPattern (str ''<<<<<<< HEAD'' @ [0x0D])"
    by (simp add: regex_eval)
  show ?thesis
    using marker_patterns [of "str ''<<<<<<< HEAD''" "[0x20, 0x09]" "str ''f.js''" 0 initialState]
      1 2 3 4 5 6
    by simp
qed

text \<open>
  Claim C10. The start branch is taken in every parser state: it keeps the records
  pushed so far, drops the unfinished block and its buffers, and opens a new conflict at
  that line. Hence what the parser returns for the lines from a start marker on is what
  it had returned before, followed by what the same lines give from the initial state.
\<close>

theorem start_marker_resets_parser:
  assumes start: "regexTest conflictStartPattern line"
  shows "parseLine file i line st =
           \<lparr>conflicts = conflicts st, inConflict = True,
            currentConflict = Some \<lparr>startLine = i, currentStart = i + 1, filePath = file,
              currentEnd = None, separatorLine = None, incomingStart = None\<rparr>,
            section' = Current, currentLines = [], baseLines = [], incomingLines = []\<rparr> \<and>
         conflicts (parseLines file i (line # rest) st) =
           conflicts st @ conflicts (parseLines file i (line # rest) initialState)"
proof -
  have a: "parseLine file i line st = (parseLine file i line initialState)\<lparr>conflicts := conflicts st @ conflicts (parseLine file i line initialState)\<rparr>"
    by (simp add: parseLine_start [OF start] initialState_def)
  have "parseLines file i (line # rest) st =
        parseLines file (i + 1) rest ((parseLine file i line initialState)\<lparr>conflicts := conflicts st @ conflicts (parseLine file i line initialState)\<rparr>)"
    using a by simp
  also have "\<dots> = (parseLines file (i + 1) rest (parseLine file i line initialState))
      \<lparr>conflicts := conflicts st @ conflicts (parseLines file (i + 1) rest (parseLine file i line initialState))\<rparr>"
    by (rule parseLines_conflicts_prefix)
  finally have "conflicts (parseLines file i (line # rest) st) =
      conflicts st @ conflicts (parseLines file i (line # rest) initialState)"
    by simp
  then show ?thesis using parseLine_start [OF start] by simp
qed

theorem start_marker_resets_parser_witness:
  "parseLine (str ''f.js'') 2 (str ''<<<<<<< B'')
     \<lparr>conflicts = [], inConflict = True,
      currentConflict = Some \<lparr>startLine = 0, currentStart = 1, filePath = str ''f.js'',
        currentEnd = None, separatorLine = None, incomingStart = None\<rparr>,
      section' = Current, currentLines = [str ''x''], baseLines = [], incomingLines = []\<rparr> =
   \<lparr>conflicts = [], inConflict = True,
    currentConflict = Some \<lparr>startLine = 2, currentStart = 3, filePath = str ''f.js'',
      currentEnd = None, separatorLine = None, incomingStart = None\<rparr>,
    section' = Current, currentLines = [], baseLines = [], incomingLines = []\<rparr> \<and>
   length (conflicts (parseLines (str ''f.js'') 0
      [str ''<<<<<<< A'', str ''x'', str ''<<<<<<< B'', str ''y'', str ''======='', str ''>>>>>>> f'']
      initialState)) = 1"
proof -
  let ?st = "\<lparr>conflicts = [], inConflict = True,
      currentConflict = Some \<lparr>startLine = 0, currentStart = 1, filePath = str ''f.js'',
        currentEnd = None, separatorLine = None, incomingStart = None\<rparr>,
      section' = Current, currentLines = [str ''x''], baseLines = [], incomingLines = []\<rparr>"
  have 1: "regexTest conflictStartPattern (str ''<<<<<<< B'')"
    by (simp add: regex_eval)
  have 2: "parseLines (str ''f.js'') 0 [str ''<<<<<<< A'', str ''x''] initialState = ?st"
    by (simp add: parseLine_def initialState_def regex_eval)
  have 3: "length (conflicts (parseLines (str ''f.js'') 2
      [str ''<<<<<<< B'', str ''y'', str ''======='', str ''>>>>>>> f''] initialState)) = 1"
    by (simp add: parseLine_def initialState_def regex_eval)
  have 4: "parseLines (str ''f.js'') 0
      ([str ''<<<<<<< A'', str ''x''] @ [str ''<<<<<<< B'', str ''y'', str ''======='', str ''>>>>>>> f''])
      initialState = parseLines (str ''f.js'') 2 [str ''<<<<<<< B'', str ''y'', str ''======='', str ''>>>>>>> f'']
        ?st"
    by (simp only: parseLines_append 2) simp
  note r = start_marker_resets_parser [OF 1, of "str ''f.js''" 2 ?st
      "[str ''y'', str ''======='', str ''>>>>>>> f'']"]
  have "length (conflicts (parseLines (str ''f.js'') 0
      ([str ''<<<<<<< A'', str ''x''] @ [str ''<<<<<<< B'', str ''y'', str ''======='', str ''>>>>>>> f''])
      initialState)) = 1"
    by (simp only: 4 conjunct2 [OF r] 3 ParseState.simps append_Nil)
  then show ?thesis using conjunct1 [OF r] by simp
qed

section \<open>Properties of the detected records\<close>

lemma parseLine_inv:
  assumes "0 \<le> i" "parseInv i st"
  shows "parseInv (i + 1) (parseLine file i l st)"
proof -
  have mono: "list_all (\<lambda>c. 0 \<le> startLine c \<and> startLine c < endLine c \<and> endLine c < i + 1) (conflicts st)"
    using assms(2) by (auto simp: parseInv_def list_all_iff)
  show ?thesis
    using assms mono
    by (auto simp: parseInv_def parseLine_def finishConflict_def list_all_iff sorted_wrt_append
        split: option.splits sectionTag.splits)
qed

lemma parseLines_inv:
  "0 \<le> i \<Longrightarrow> parseInv i st \<Longrightarrow> parseInv (i + int (length ls)) (parseLines file i ls st)"
proof (induction ls arbitrary: i st)
  case Nil
  then show ?case by simp
next
  case (Cons l ls)
  have "parseInv ((i + 1) + int (length ls)) (parseLines file (i + 1) ls (parseLine file i l st))"
    using Cons.prems by (intro Cons.IH parseLine_inv) simp_all
  moreover have "(i + 1) + int (length ls) = i + int (length (l # ls))" by simp
  ultimately show ?case by (simp only: parseLines.simps)
qed

lemma detect_spans:
  "list_all (\<lambda>c. 0 \<le> startLine c \<and> startLine c < endLine c) (detectConflictsInFile doc) \<and>
   sorted_wrt (\<lambda>a b. endLine a < startLine b) (detectConflictsInFile doc)"
proof -
  have "parseInv 0 initialState" by (simp add: parseInv_def initialState_def)
  then have "parseInv (0 + int (length (splitNL (getText doc))))
      (parseLines (fileName doc) 0 (splitNL (getText doc)) initialState)"
    by (intro parseLines_inv) simp_all
  then show ?thesis
    by (auto simp: parseInv_def detectConflictsInFile_def list_all_iff)
qed

lemma insertSorted_last:
  "list_all (\<lambda>d. startLine a < startLine d) bs \<Longrightarrow> insertSorted a bs = bs @ [a]"
  by (induction bs) (simp_all add: compareFn_def)

lemma sortConflicts_increasing:
  "sorted_wrt (\<lambda>a b. startLine a < startLine b) cs \<Longrightarrow> sortConflicts cs = rev cs"
proof (induction cs)
  case Nil
  show ?case by (simp add: sortConflicts_def)
next
  case (Cons c cs)
  then have "sortConflicts cs = rev cs" by simp
  moreover have "list_all (\<lambda>d. startLine c < startLine d) (rev cs)"
    using Cons.prems by (simp add: list_all_iff)
  ultimately show ?case
    using insertSorted_last [of c "rev cs"] by (simp add: sortConflicts_def)
qed

lemma detect_increasing:
  "sorted_wrt (\<lambda>a b. startLine a < startLine b) (detectConflictsInFile doc)"
  using detect_spans [of doc]
  by (auto simp: list_all_iff intro!: sorted_wrt_mono_rel [where P = "\<lambda>a b. endLine a < startLine b"])

lemma detect_sorted_is_rev:
  "sortConflicts (detectConflictsInFile doc) = rev (detectConflictsInFile doc)"
  using detect_increasing by (rule sortConflicts_increasing)

section \<open>Properties of the batch loop\<close>

lemma splitNL_nonempty: "splitNL t \<noteq> []"
  by (induction t) (auto split: list.splits)

lemma splitNL_no_newline: "l \<in> set (splitNL t) \<Longrightarrow> 0x0A \<notin> set l"
proof (induction t arbitrary: l)
  case Nil
  then show ?case by simp
next
  case (Cons c cs)
  show ?case
  proof (cases "c = 0x0A")
    case True
    then show ?thesis using Cons by auto
  next
    case False
    obtain m ms where ms: "splitNL cs = m # ms"
      using splitNL_nonempty [of cs] by (cases "splitNL cs") auto
    then have "l = c # m \<or> l \<in> set ms" using Cons.prems False by simp
    then show ?thesis using Cons.IH ms False by auto
  qed
qed

lemma splitNL_line_break:
  "0x0A \<notin> set l \<Longrightarrow> splitNL (l @ 0x0A # t) = l # splitNL t"
  by (induction l) auto

lemma joinNL_Cons: "zs \<noteq> [] \<Longrightarrow> joinNL (x # zs) = x @ 0x0A # joinNL zs"
  by (cases zs) simp_all

lemma splitNL_joinNL_prefix:
  "list_all (\<lambda>l. 0x0A \<notin> set l) xs \<Longrightarrow>
     splitNL (joinNL (xs @ y # ys)) = xs @ splitNL (joinNL (y # ys))"
  by (induction xs) (simp_all add: joinNL_Cons splitNL_line_break)

lemma replaced_lines_prefix:
  assumes "0 \<le> s" "s \<le> e" "e < int (length (splitNL t))"
  shows "take (nat s) (splitNL (joinNL (replaceRange (splitNL t) s e text))) = take (nat s) (splitNL t)"
proof -
  let ?ls = "splitNL t"
  have nl: "list_all (\<lambda>l. 0x0A \<notin> set l) (take (nat s) ?ls)"
    using splitNL_no_newline [of _ t] by (auto simp: list_all_iff dest: in_set_takeD)
  have len: "length (take (nat s) ?ls) = nat s" using assms by simp
  have "splitNL (joinNL (replaceRange ?ls s e text)) =
      take (nat s) ?ls @ splitNL (joinNL (text # drop (nat e + 1) ?ls))"
    using assms splitNL_joinNL_prefix [OF nl] by (simp add: replaceRange_def)
  then show ?thesis using len by simp
qed

lemma applyResolution_prefix:
  assumes "applyResolution host c text doc w = (ok, doc', w')" "startLine c \<le> endLine c"
  shows "take (nat (startLine c)) (splitNL (getText doc')) =
         take (nat (startLine c)) (splitNL (getText doc))"
  using assms replaced_lines_prefix [of "startLine c" "endLine c" "getText doc" "text"]
  by (auto simp: applyResolution_def Let_def split: if_splits prod.splits bool.splits)

lemma resolveOne_prefix:
  assumes "resolveOne host p c st = (fl, st')" "startLine c \<le> endLine c"
  shows "take (nat (startLine c)) (splitNL (getText (editorDocument st'))) =
         take (nat (startLine c)) (splitNL (getText (editorDocument st)))"
proof (cases "isCancellationRequested host (world st)")
  case True
  then show ?thesis using assms(1) by (simp add: resolveOne_def)
next
  case False
  obtain r w1 where rc: "resolveConflict p (editorDocument st) c (world st) = (r, w1)"
    by fastforce
  show ?thesis
  proof (cases r)
    case (Inl err)
    then show ?thesis
      using assms(1) False rc by (auto simp: resolveOne_def Let_def split: prod.splits)
  next
    case (Inr res)
    obtain ok doc1 w2 where a1: "applyResolution host c (resolution res) (editorDocument st) w1 = (ok, doc1, w2)"
      by (metis prod_cases3)
    obtain retry w3 where wm: "showWarningMessage host w2 = (retry, w3)"
      by fastforce
    obtain ok2 doc2 w4 where a2: "applyResolution host c (resolution res) doc1 w3 = (ok2, doc2, w4)"
      by (metis prod_cases3)
    have p1: "take (nat (startLine c)) (splitNL (getText doc1)) =
        take (nat (startLine c)) (splitNL (getText (editorDocument st)))"
      by (rule applyResolution_prefix [OF a1 assms(2)])
    have p2: "take (nat (startLine c)) (splitNL (getText doc2)) =
        take (nat (startLine c)) (splitNL (getText doc1))"
      by (rule applyResolution_prefix [OF a2 assms(2)])
    have "editorDocument st' = doc1 \<or> editorDocument st' = doc2"
      using assms(1) False rc Inr a1 wm a2
      by (auto simp: resolveOne_def Let_def split: if_splits)
    then show ?thesis using p1 p2 by auto
  qed
qed

lemma resolveFile_prefix:
  assumes "resolveFile host p ds st = (fl, st')"
    and "list_all (\<lambda>d. startLine d \<le> endLine d \<and> k \<le> nat (startLine d)) ds"
  shows "take k (splitNL (getText (editorDocument st'))) =
         take k (splitNL (getText (editorDocument st)))"
  using assms
proof (induction ds arbitrary: st)
  case Nil
  then show ?case by simp
next
  case (Cons d ds)
  obtain f1 st1 where one: "resolveOne host p d st = (f1, st1)" by fastforce
  have d: "startLine d \<le> endLine d" "k \<le> nat (startLine d)" using Cons.prems(2) by simp_all
  have "take (nat (startLine d)) (splitNL (getText (editorDocument st1))) =
        take (nat (startLine d)) (splitNL (getText (editorDocument st)))"
    by (rule resolveOne_prefix [OF one d(1)])
  then have "take k (take (nat (startLine d)) (splitNL (getText (editorDocument st1)))) =
        take k (take (nat (startLine d)) (splitNL (getText (editorDocument st))))"
    by simp
  then have step: "take k (splitNL (getText (editorDocument st1))) =
        take k (splitNL (getText (editorDocument st)))"
    using d(2) by (simp add: min_absorb1)
  show ?case
  proof (cases f1)
    case Next
    then have "resolveFile host p ds st1 = (fl, st')" using Cons.prems(1) one by simp
    then have "take k (splitNL (getText (editorDocument st'))) =
        take k (splitNL (getText (editorDocument st1)))"
      using Cons.IH Cons.prems(2) by simp
    then show ?thesis using step by simp
  next
    case Break
    then show ?thesis using Cons.prems(1) one step by simp
  next
    case Return
    then show ?thesis using Cons.prems(1) one step by simp
  qed
qed

lemma resolveOne_results:
  assumes "resolveOne host p c st = (fl, st')"
  shows "(fl = Break \<and> st' = st) \<or>
         (fl \<noteq> Break \<and> (\<exists>r. results st' = results st @ [r] \<and> conflict r = c))"
proof (cases "isCancellationRequested host (world st)")
  case True
  then show ?thesis using assms by (simp add: resolveOne_def)
next
  case False
  obtain r w1 where rc: "resolveConflict p (editorDocument st) c (world st) = (r, w1)"
    by fastforce
  show ?thesis
  proof (cases r)
    case (Inl err)
    then show ?thesis
      using assms False rc by (auto simp: resolveOne_def Let_def split: prod.splits if_splits)
  next
    case (Inr res)
    obtain ok doc1 w2 where a1: "applyResolution host c (resolution res) (editorDocument st) w1 = (ok, doc1, w2)"
      by (metis prod_cases3)
    obtain retry w3 where wm: "showWarningMessage host w2 = (retry, w3)"
      by fastforce
    obtain ok2 doc2 w4 where a2: "applyResolution host c (resolution res) doc1 w3 = (ok2, doc2, w4)"
      by (metis prod_cases3)
    show ?thesis
      using assms False rc Inr a1 wm a2
      by (auto simp: resolveOne_def Let_def split: if_splits)
  qed
qed

lemma resolveFile_results:
  "resolveFile host p cs st = (fl, st') \<Longrightarrow>
     \<exists>n new. results st' = results st @ new \<and> map conflict new = take n cs"
proof (induction cs arbitrary: st)
  case Nil
  then have "results st' = results st @ [] \<and> map conflict [] = take 0 []" by simp
  then show ?case by blast
next
  case (Cons c cs)
  obtain f1 st1 where one: "resolveOne host p c st = (f1, st1)" by fastforce
  from resolveOne_results [OF one] show ?case
  proof
    assume "f1 = Break \<and> st1 = st"
    then have "results st' = results st @ [] \<and> map conflict [] = take 0 (c # cs)"
      using Cons.prems one by simp
    then show ?thesis by blast
  next
    assume a: "f1 \<noteq> Break \<and> (\<exists>r. results st1 = results st @ [r] \<and> conflict r = c)"
    then obtain r where r: "results st1 = results st @ [r]" "conflict r = c" by blast
    show ?thesis
    proof (cases f1)
      case Next
      then have "resolveFile host p cs st1 = (fl, st')" using Cons.prems one by simp
      then obtain n new where "results st' = results st1 @ new" "map conflict new = take n cs"
        using Cons.IH by blast
      then have "results st' = results st @ (r # new) \<and>
          map conflict (r # new) = take (Suc n) (c # cs)"
        using r by simp
      then show ?thesis by blast
    next
      case Break
      then show ?thesis using a by simp
    next
      case Return
      then have "results st' = results st @ [r] \<and> map conflict [r] = take 1 (c # cs)"
        using Cons.prems one r by simp
      then show ?thesis by blast
    qed
  qed
qed

lemma resolveFile_append:
  "resolveFile host p xs st = (f1, st1) \<Longrightarrow>
     resolveFile host p (xs @ ys) st = (if f1 = Next then resolveFile host p ys st1 else (f1, st1))"
proof (induction xs arbitrary: st)
  case Nil
  then show ?case by simp
next
  case (Cons x xs)
  obtain f0 st0 where one: "resolveOne host p x st = (f0, st0)" by fastforce
  show ?case
  proof (cases f0)
    case Next
    then show ?thesis using Cons one by simp
  next
    case Break
    then show ?thesis using Cons.prems one by auto
  next
    case Return
    then show ?thesis using Cons.prems one by auto
  qed
qed

section \<open>Claims about the resolver and the providers\<close>

text \<open>The detector and one batch step on the document with two blocks.\<close>

lemma detect_twoBlocks: "detectConflictsInFile twoBlocks = [firstBlock, secondBlock]"
  by (simp add: twoBlocks_def firstBlock_def secondBlock_def detectConflictsInFile_def
      parseLine_def initialState_def finishConflict_def regex_eval)

lemma sort_twoBlocks: "sortConflicts (detectConflictsInFile twoBlocks) = [secondBlock] @ firstBlock # []"
  by (simp add: detect_twoBlocks sortConflicts_def compareFn_def firstBlock_def secondBlock_def)

lemma workspace_neverCancels: "neverCancels (workspaceHost doc)"
  by (simp add: neverCancels_def workspaceHost_def str_def)

lemma detectAll_twoBlocks:
  "detectAllConflicts (workspaceHost twoBlocks) () = ([(str ''f.js'', [firstBlock, secondBlock])], ())"
  by (simp add: detectAllConflicts_def workspaceHost_def detect_twoBlocks)
    (simp add: twoBlocks_def)

lemma sorted_twoBlocks: "sortConflicts [firstBlock, secondBlock] = [secondBlock, firstBlock]"
  by (simp add: sortConflicts_def compareFn_def firstBlock_def secondBlock_def)

lemma workspace_secondBlock:
  "resolveFile (workspaceHost twoBlocks) (Some (fixedProvider (str ''r''))) [secondBlock]
     \<lparr>editorDocument = twoBlocks, results = [], world = ()\<rparr> =
   (Next,
    \<lparr>editorDocument = twoBlocks\<lparr>getText := str ''<<<<<<< A\<newline>x\<newline>=======\<newline>y\<newline>>>>>>>> a\<newline>mid\<newline>r''\<rparr>,
     results = [\<lparr>conflict = secondBlock,
                 resolution' = \<lparr>resolution = str ''r'', explanation = str ''mock'',
                                 confidence = 0.9, alternatives = None\<rparr>,
                 applied = True, error = None\<rparr>],
     world = ()\<rparr>)"
  by (simp add: resolveOne_def resolveConflict_def getProvider_def fixedProvider_def
      workspaceHost_def applyResolution_def replaceRange_def twoBlocks_def secondBlock_def str_def)

lemma workspace_firstBlock:
  "resolveFile (workspaceHost twoBlocks) (Some (fixedProvider (str ''r''))) [firstBlock]
     \<lparr>editorDocument = twoBlocks\<lparr>getText := str ''<<<<<<< A\<newline>x\<newline>=======\<newline>y\<newline>>>>>>>> a\<newline>mid\<newline>r''\<rparr>,
      results = rs, world = ()\<rparr> =
   (Next,
    \<lparr>editorDocument = twoBlocks\<lparr>getText := str ''r\<newline>mid\<newline>r''\<rparr>,
     results = rs @ [\<lparr>conflict = firstBlock,
                 resolution' = \<lparr>resolution = str ''r'', explanation = str ''mock'',
                                 confidence = 0.9, alternatives = None\<rparr>,
                 applied = True, error = None\<rparr>],
     world = ()\<rparr>)"
  by (simp add: resolveOne_def resolveConflict_def getProvider_def fixedProvider_def
      workspaceHost_def applyResolution_def replaceRange_def twoBlocks_def firstBlock_def str_def)

text \<open>A run that is never cancelled processes every conflict.\<close>

lemma resolveOne_next:
  assumes "neverCancels host"
  shows "fst (resolveOne host p c st) = Next"
proof -
  have live: "\<not> isCancellationRequested host (world st)"
    using assms by (simp add: neverCancels_def)
  obtain r w1 where rc: "resolveConflict p (editorDocument st) c (world st) = (r, w1)"
    by fastforce
  show ?thesis
  proof (cases r)
    case (Inl err)
    obtain action w2 where em: "showErrorMessage host w1 = (action, w2)" by fastforce
    have "fst (showErrorMessage host w1) \<noteq> Some (str ''Cancel'')"
      using assms by (simp add: neverCancels_def)
    then have "action \<noteq> Some (str ''Cancel'')"
      using em by simp
    then show ?thesis
      using live rc Inl em by (simp add: resolveOne_def)
  next
    case (Inr res)
    obtain ok doc1 w2 where a1: "applyResolution host c (resolution res) (editorDocument st) w1 = (ok, doc1, w2)"
      by (metis prod_cases3)
    obtain retry w3 where wm: "showWarningMessage host w2 = (retry, w3)"
      by fastforce
    have "fst (showWarningMessage host w2) \<noteq> Some (str ''Cancel'')"
      using assms by (simp add: neverCancels_def)
    then have nc: "retry \<noteq> Some (str ''Cancel'')"
      using wm by simp
    obtain ok2 doc2 w4 where a2: "applyResolution host c (resolution res) doc1 w3 = (ok2, doc2, w4)"
      by (metis prod_cases3)
    show ?thesis
      using live rc Inr a1 wm nc a2 by (simp add: resolveOne_def Let_def)
  qed
qed




lemma resolveFile_complete:
  "resolveFile host p cs st = (Next, st') \<Longrightarrow>
     \<exists>new. results st' = results st @ new \<and> map conflict new = cs"
proof (induction cs arbitrary: st)
  case Nil
  then have "results st' = results st @ [] \<and> map conflict [] = []" by simp
  then show ?case by blast
next
  case (Cons c cs)
  obtain f1 st1 where one: "resolveOne host p c st = (f1, st1)" by fastforce
  have f1: "f1 = Next"
  proof (cases f1)
    case Next
    then show ?thesis .
  next
    case Break
    then have "resolveFile host p (c # cs) st = (Break, st1)" using one by simp
    then show ?thesis using Cons.prems by simp
  next
    case Return
    then have "resolveFile host p (c # cs) st = (Return, st1)" using one by simp
    then show ?thesis using Cons.prems by simp
  qed
  from resolveOne_results [OF one]
  have "\<exists>r. results st1 = results st @ [r] \<and> conflict r = c"
  proof
    assume "f1 = Break \<and> st1 = st"
    then show ?thesis using f1 by simp
  next
    assume "f1 \<noteq> Break \<and> (\<exists>r. results st1 = results st @ [r] \<and> conflict r = c)"
    then show ?thesis by (rule conjunct2)
  qed
  then obtain r where r1: "results st1 = results st @ [r]" and r2: "conflict r = c"
    by blast
  have step: "resolveFile host p (c # cs) st = resolveFile host p cs st1"
    by (simp add: one [unfolded f1])
  have "resolveFile host p cs st1 = (Next, st')"
    using Cons.prems unfolding step .
  then have "\<exists>new. results st' = results st1 @ new \<and> map conflict new = cs"
    by (rule Cons.IH)
  then obtain new where n1: "results st' = results st1 @ new" and n2: "map conflict new = cs"
    by blast
  have a: "results st' = results st @ (r # new)"
    unfolding n1 r1 by simp
  have b: "map conflict (r # new) = c # cs"
    by (simp add: n2 r2)
  have "results st' = results st @ (r # new) \<and> map conflict (r # new) = c # cs"
    using a b by (rule conjI)
  then show ?case by (rule exI)
qed

lemma resolveFile_next:
  assumes "neverCancels host"
  shows "fst (resolveFile host p cs st) = Next"
proof (induction cs arbitrary: st)
  case Nil
  show ?case by simp
next
  case (Cons c cs)
  obtain f1 st1 where one: "resolveOne host p c st = (f1, st1)" by fastforce
  then have "f1 = Next" using resolveOne_next [OF assms, of p c st] by simp
  then show ?case using one Cons.IH by simp
qed

text \<open>
  The results of the outer loop: for each entry, in order, results for a prefix of its
  sorted conflicts; for all of them on a host that never cancels.
\<close>

lemma resolveFiles_segments:
  "resolveFiles host p entries rs w = (Inr res, w') \<Longrightarrow>
     \<exists>ns new. res = rs @ new \<and>
       map conflict new =
         concat (map (\<lambda>(n, e). take n (sortConflicts (snd e))) (zip ns entries))"
proof (induction entries arbitrary: rs w)
  case Nil
  then have "res = rs @ [] \<and> map conflict [] =
      concat (map (\<lambda>(n, e). take n (sortConflicts (snd e))) (zip [] []))"
    by simp
  then show ?case by (intro exI)
next
  case (Cons entry entries)
  obtain path cs where entry: "entry = (path, cs)" by (cases entry)
  show ?case
  proof (cases "isCancellationRequested host w")
    case True
    then have "res = rs @ [] \<and> map conflict [] =
        concat (map (\<lambda>(n, e). take n (sortConflicts (snd e))) (zip [] (entry # entries)))"
      using Cons.prems entry by simp
    then show ?thesis by (intro exI)
  next
    case False
    obtain r w1 where op: "openTextDocument host path w = (r, w1)" by fastforce
    show ?thesis
    proof (cases r)
      case (Inl err)
      then show ?thesis using Cons.prems entry False op by simp
    next
      case (Inr doc)
      obtain fl st where run: "resolveFile host p (sortConflicts cs)
          \<lparr>editorDocument = doc, results = rs, world = w1\<rparr> = (fl, st)"
        by fastforce
      obtain n new1 where n: "results st = rs @ new1" "map conflict new1 = take n (sortConflicts cs)"
        using resolveFile_results [OF run] by auto
      show ?thesis
      proof (cases "fl = Return")
        case True
        then have "res = results st" using Cons.prems entry False op Inr run by simp
        then have "res = rs @ new1 \<and> map conflict new1 =
            concat (map (\<lambda>(n, e). take n (sortConflicts (snd e))) (zip [n] (entry # entries)))"
          using n entry by simp
        then show ?thesis by (intro exI)
      next
        case False
        then have "resolveFiles host p entries (results st) (world st) = (Inr res, w')"
          using Cons.prems entry \<open>\<not> isCancellationRequested host w\<close> op Inr run
          by (cases fl) simp_all
        then obtain ns new2 where ih: "res = results st @ new2"
          "map conflict new2 =
             concat (map (\<lambda>(n, e). take n (sortConflicts (snd e))) (zip ns entries))"
          using Cons.IH by blast
        have "res = rs @ (new1 @ new2) \<and> map conflict (new1 @ new2) =
            concat (map (\<lambda>(n, e). take n (sortConflicts (snd e))) (zip (n # ns) (entry # entries)))"
          using ih n entry by simp
        then show ?thesis by (intro exI)
      qed
    qed
  qed
qed

lemma resolveFiles_complete:
  assumes "neverCancels host"
  shows "\<exists>new w'. resolveFiles host p entries rs w = (Inr (rs @ new), w') \<and>
           map conflict new = concat (map (\<lambda>e. sortConflicts (snd e)) entries)"
proof (induction entries arbitrary: rs w)
  case Nil
  have "resolveFiles host p [] rs w = (Inr (rs @ []), w) \<and>
      map conflict [] = concat (map (\<lambda>e. sortConflicts (snd e)) [])"
    by simp
  then show ?case by (intro exI)
next
  case (Cons entry entries)
  obtain path cs where entry: "entry = (path, cs)" by (cases entry)
  have live: "\<not> isCancellationRequested host w"
    using assms by (simp add: neverCancels_def)
  obtain doc where "fst (openTextDocument host path w) = Inr doc"
    using assms unfolding neverCancels_def by blast
  then obtain w1 where op: "openTextDocument host path w = (Inr doc, w1)"
    by (cases "openTextDocument host path w") simp
  obtain fl st where run: "resolveFile host p (sortConflicts cs)
      \<lparr>editorDocument = doc, results = rs, world = w1\<rparr> = (fl, st)"
    by fastforce
  have fl: "fl = Next"
    using resolveFile_next [OF assms, of p "sortConflicts cs"
        "\<lparr>editorDocument = doc, results = rs, world = w1\<rparr>"] run
    by simp
  obtain new1 where n1: "results st = rs @ new1" "map conflict new1 = sortConflicts cs"
    using resolveFile_complete [OF run [unfolded fl]] by auto
  obtain new2 w' where ih: "resolveFiles host p entries (results st) (world st) =
      (Inr (results st @ new2), w')"
    "map conflict new2 = concat (map (\<lambda>e. sortConflicts (snd e)) entries)"
    using Cons.IH by blast
  have "resolveFiles host p ((path, cs) # entries) rs w =
      resolveFiles host p entries (results st) (world st)"
    using live op run fl by simp
  then have "resolveFiles host p (entry # entries) rs w = (Inr (rs @ (new1 @ new2)), w') \<and>
      map conflict (new1 @ new2) = concat (map (\<lambda>e. sortConflicts (snd e)) (entry # entries))"
    using entry ih n1 by simp
  then show ?case by (intro exI)
qed

lemma resolveAll_segments:
  assumes "resolveAllConflicts host p w0 = (Inr res, w')"
  shows "\<exists>ns. map conflict res =
      concat (map (\<lambda>(n, e). take n (sortConflicts (snd e))) (zip ns (fst (detectAllConflicts host w0))))"
proof -
  obtain entries w1 where d: "detectAllConflicts host w0 = (entries, w1)" by fastforce
  then have "resolveFiles host p entries [] w1 = (Inr res, w')"
    using assms by (simp add: resolveAllConflicts_def)
  then have "\<exists>ns new. res = [] @ new \<and>
      map conflict new = concat (map (\<lambda>(n, e). take n (sortConflicts (snd e))) (zip ns entries))"
    by (rule resolveFiles_segments)
  then show ?thesis
  proof (elim exE conjE)
    fix ns new
    assume "res = [] @ new"
      and "map conflict new =
        concat (map (\<lambda>(n, e). take n (sortConflicts (snd e))) (zip ns entries))"
    then have "map conflict res =
        concat (map (\<lambda>(n, e). take n (sortConflicts (snd e)))
          (zip ns (fst (detectAllConflicts host w0))))"
      by (simp add: d)
    then show ?thesis by (rule exI)
  qed
qed

lemma resolveAll_complete:
  assumes "neverCancels host"
  shows "\<exists>res w'. resolveAllConflicts host p w0 = (Inr res, w') \<and>
      map conflict res = concat (map (\<lambda>e. sortConflicts (snd e)) (fst (detectAllConflicts host w0)))"
proof -
  obtain entries w1 where d: "detectAllConflicts host w0 = (entries, w1)" by fastforce
  from resolveFiles_complete [OF assms, of p entries "[]" w1] show ?thesis
  proof (elim exE conjE)
    fix new w'
    assume "resolveFiles host p entries [] w1 = (Inr ([] @ new), w')"
      and "map conflict new = concat (map (\<lambda>e. sortConflicts (snd e)) entries)"
    then have "resolveAllConflicts host p w0 = (Inr new, w') \<and>
        map conflict new =
          concat (map (\<lambda>e. sortConflicts (snd e)) (fst (detectAllConflicts host w0)))"
      by (simp add: resolveAllConflicts_def d)
    then show ?thesis by (intro exI)
  qed
qed

text \<open>Every entry that \<open>detectAllConflicts\<close> returns holds what the detector returned.\<close>

lemma mapSet_detected:
  "list_all detectedEntry m \<Longrightarrow> detectedEntry (k, v) \<Longrightarrow> list_all detectedEntry (mapSet m k v)"
  by (induction m) auto

lemma detectFiles_detected:
  "list_all detectedEntry acc \<Longrightarrow> list_all detectedEntry (fst (detectFiles host files acc w))"
proof (induction files arbitrary: acc w)
  case Nil
  then show ?case by simp
next
  case (Cons path files)
  obtain r w1 where op: "openTextDocument host path w = (r, w1)" by fastforce
  show ?case
  proof (cases r)
    case (Inl err)
    then show ?thesis using Cons op by simp
  next
    case (Inr doc)
    have "detectedEntry (path, detectConflictsInFile doc)"
      unfolding detectedEntry_def by auto
    then have "list_all detectedEntry (mapSet acc path (detectConflictsInFile doc))"
      using Cons.prems by (rule mapSet_detected [rotated])
    then show ?thesis using Cons op Inr by (simp add: Let_def)
  qed
qed

lemma detectAllConflicts_sorted:
  "list_all (\<lambda>e. sorted_wrt (\<lambda>a b. startLine b < startLine a) (sortConflicts (snd e)))
     (fst (detectAllConflicts host w))"
proof -
  obtain files w1 where ff: "findFiles host w = (files, w1)" by fastforce
  have "list_all detectedEntry (fst (detectFiles host files [] w1))"
    by (rule detectFiles_detected) simp
  moreover have "sorted_wrt (\<lambda>a b. startLine b < startLine a) (sortConflicts (snd e))"
    if "detectedEntry e" for e
  proof -
    from that obtain doc where "snd e = detectConflictsInFile doc"
      unfolding detectedEntry_def by blast
    then show ?thesis
      using detect_increasing [of doc] by (simp add: detect_sorted_is_rev sorted_wrt_rev)
  qed
  ultimately show ?thesis
    by (simp add: detectAllConflicts_def ff list_all_iff)
qed

text \<open>
  The order of the batch and the lines it leaves untouched, for a run that has reached
  a conflict \<open>c\<close> after the conflicts \<open>done\<close>.
\<close>

lemma batch_order:
  assumes sorted: "sortConflicts (detectConflictsInFile doc) = done @ c # rest"
    and reach: "resolveFile host provider done \<lparr>editorDocument = doc, results = rs, world = w\<rparr> = (fl, st)"
    and run: "resolveFile host provider (sortConflicts (detectConflictsInFile doc))
                \<lparr>editorDocument = doc, results = rs, world = w\<rparr> = (fl', st')"
  shows "sorted_wrt (\<lambda>a b. startLine b < startLine a) (sortConflicts (detectConflictsInFile doc)) \<and>
         (\<exists>n new. results st' = rs @ new \<and>
            map conflict new = take n (sortConflicts (detectConflictsInFile doc))) \<and>
         (fl', st') = (if fl = Next then resolveFile host provider (c # rest) st else (fl, st)) \<and>
         list_all (\<lambda>d. endLine c < startLine d) done \<and>
         0 \<le> startLine c \<and> startLine c < endLine c \<and>
         take (nat (endLine c) + 1) (splitNL (getText (editorDocument st))) =
           take (nat (endLine c) + 1) (splitNL (getText doc))"
proof -
  let ?cs = "detectConflictsInFile doc"
  let ?st0 = "\<lparr>editorDocument = doc, results = rs, world = w\<rparr>"
  have spans: "list_all (\<lambda>c. 0 \<le> startLine c \<and> startLine c < endLine c) ?cs"
    and apart: "sorted_wrt (\<lambda>a b. endLine a < startLine b) ?cs"
    using detect_spans [of doc] by simp_all
  have rev: "sortConflicts ?cs = rev ?cs" by (rule detect_sorted_is_rev)
  have apart': "sorted_wrt (\<lambda>a b. endLine b < startLine a) (done @ c # rest)"
    using apart by (simp add: sorted [symmetric] rev sorted_wrt_rev)
  have spans': "list_all (\<lambda>c. 0 \<le> startLine c \<and> startLine c < endLine c) (done @ c # rest)"
    using spans by (simp add: sorted [symmetric] rev list_all_iff)
  have 1: "sorted_wrt (\<lambda>a b. startLine b < startLine a) (sortConflicts ?cs)"
    using detect_increasing [of doc] by (simp add: rev sorted_wrt_rev)
  have 2: "\<exists>n new. results st' = rs @ new \<and> map conflict new = take n (sortConflicts ?cs)"
    using resolveFile_results [OF run] by simp
  have 3: "(fl', st') = (if fl = Next then resolveFile host provider (c # rest) st else (fl, st))"
    using resolveFile_append [OF reach, of "c # rest"] run by (simp add: sorted)
  have 4: "list_all (\<lambda>d. endLine c < startLine d) done"
    using apart' by (auto simp: sorted_wrt_append list_all_iff)
  have 5: "0 \<le> startLine c \<and> startLine c < endLine c"
    using spans' by simp
  have "list_all (\<lambda>d. startLine d \<le> endLine d \<and> nat (endLine c) + 1 \<le> nat (startLine d)) done"
    unfolding list_all_iff
  proof
    fix d
    assume d: "d \<in> set done"
    then have "endLine c < startLine d" using 4 by (simp add: list_all_iff)
    moreover have "startLine d < endLine d" using spans' d by (simp add: list_all_iff)
    ultimately show "startLine d \<le> endLine d \<and> nat (endLine c) + 1 \<le> nat (startLine d)"
      using 5 by linarith
  qed
  from resolveFile_prefix [OF reach this]
  have 6: "take (nat (endLine c) + 1) (splitNL (getText (editorDocument st))) =
           take (nat (endLine c) + 1) (splitNL (getText doc))"
    by simp
  show ?thesis using 1 2 3 4 5 6 by blast
qed

text \<open>
  Claim C6. \<open>resolveAllConflicts\<close> processes the conflicts of each file in strictly
  decreasing order of \<open>startLine\<close>.
  \<^item> Every entry of the map it iterates over, sorted by the comparison function, is
    strictly decreasing in \<open>startLine\<close>.
  \<^item> The conflicts of the results it returns are, entry after entry, those of a prefix of
    the sorted conflicts of the entry; on a host that never cancels it returns, and they
    are all the sorted conflicts of all the entries, in that order.
  \<^item> For a file that opens while the token is not cancelled, the outer loop runs the
    inner loop on the sorted conflicts, the opened document and the results so far.
  \<^item> For the conflicts that the detector returns for a document, the inner loop pushes
    one result for each conflict it has processed, along the sorted list from its head,
    and for all of it when the loop ends normally.
  \<^item> When the inner loop reaches a conflict \<open>c\<close>, having processed the conflicts \<open>done\<close>
    before it, every one of those starts after the end of \<open>c\<close>, and the lines of the
    document up to \<open>endLine c\<close> are still those the detector read, whatever the edits,
    failures and retries before: the recorded span of \<open>c\<close> still holds its block.
\<close>

theorem batch_edits_in_descending_order:
  "list_all (\<lambda>e. sorted_wrt (\<lambda>a b. startLine b < startLine a) (sortConflicts (snd e)))
     (fst (detectAllConflicts host w0)) \<and>
   (\<forall>res w'. resolveAllConflicts host provider w0 = (Inr res, w') \<longrightarrow>
      (\<exists>ns. map conflict res =
         concat (map (\<lambda>(n, e). take n (sortConflicts (snd e)))
           (zip ns (fst (detectAllConflicts host w0)))))) \<and>
   (neverCancels host \<longrightarrow>
      (\<exists>res w'. resolveAllConflicts host provider w0 = (Inr res, w') \<and>
         map conflict res =
           concat (map (\<lambda>e. sortConflicts (snd e)) (fst (detectAllConflicts host w0))))) \<and>
   (\<not> isCancellationRequested host w1 \<and> openTextDocument host path w1 = (Inr doc, w) \<longrightarrow>
      resolveFiles host provider ((path, cs) # others) rs w1 =
      (case resolveFile host provider (sortConflicts cs)
              \<lparr>editorDocument = doc, results = rs, world = w\<rparr> of
         (Return, st) \<Rightarrow> (Inr (results st), world st)
       | (fl, st) \<Rightarrow> resolveFiles host provider others (results st) (world st))) \<and>
   sorted_wrt (\<lambda>a b. startLine b < startLine a) (sortConflicts (detectConflictsInFile doc)) \<and>
   (\<exists>n new.
      results (snd (resolveFile host provider (sortConflicts (detectConflictsInFile doc))
        \<lparr>editorDocument = doc, results = rs, world = w\<rparr>)) = rs @ new \<and>
      map conflict new = take n (sortConflicts (detectConflictsInFile doc))) \<and>
   (fst (resolveFile host provider (sortConflicts (detectConflictsInFile doc))
        \<lparr>editorDocument = doc, results = rs, world = w\<rparr>) = Next \<longrightarrow>
      (\<exists>new.
         results (snd (resolveFile host provider (sortConflicts (detectConflictsInFile doc))
           \<lparr>editorDocument = doc, results = rs, world = w\<rparr>)) = rs @ new \<and>
         map conflict new = sortConflicts (detectConflictsInFile doc))) \<and>
   (sortConflicts (detectConflictsInFile doc) = done @ c # rest \<longrightarrow>
      resolveFile host provider (done @ c # rest)
        \<lparr>editorDocument = doc, results = rs, world = w\<rparr> =
      (if fst (resolveFile host provider done \<lparr>editorDocument = doc, results = rs, world = w\<rparr>) = Next
       then resolveFile host provider (c # rest)
         (snd (resolveFile host provider done \<lparr>editorDocument = doc, results = rs, world = w\<rparr>))
       else resolveFile host provider done \<lparr>editorDocument = doc, results = rs, world = w\<rparr>) \<and>
      list_all (\<lambda>d. endLine c < startLine d) done \<and>
      0 \<le> startLine c \<and> startLine c < endLine c \<and>
      take (nat (endLine c) + 1)
        (splitNL (getText (editorDocument
          (snd (resolveFile host provider done \<lparr>editorDocument = doc, results = rs, world = w\<rparr>))))) =
      take (nat (endLine c) + 1) (splitNL (getText doc)))"
proof -
  let ?cs = "sortConflicts (detectConflictsInFile doc)"
  let ?st0 = "\<lparr>editorDocument = doc, results = rs, world = w\<rparr>"
  let ?run = "resolveFile host provider ?cs ?st0"
  let ?reach = "resolveFile host provider done ?st0"
  have a: "\<forall>res w'. resolveAllConflicts host provider w0 = (Inr res, w') \<longrightarrow>
      (\<exists>ns. map conflict res =
         concat (map (\<lambda>(n, e). take n (sortConflicts (snd e)))
           (zip ns (fst (detectAllConflicts host w0)))))"
    by (intro allI impI) (rule resolveAll_segments)
  have b: "neverCancels host \<longrightarrow>
      (\<exists>res w'. resolveAllConflicts host provider w0 = (Inr res, w') \<and>
         map conflict res =
           concat (map (\<lambda>e. sortConflicts (snd e)) (fst (detectAllConflicts host w0))))"
    by (intro impI) (rule resolveAll_complete)
  have c: "\<not> isCancellationRequested host w1 \<and> openTextDocument host path w1 = (Inr doc, w) \<longrightarrow>
      resolveFiles host provider ((path, cs) # others) rs w1 =
      (case resolveFile host provider (sortConflicts cs) ?st0 of
         (Return, st) \<Rightarrow> (Inr (results st), world st)
       | (fl, st) \<Rightarrow> resolveFiles host provider others (results st) (world st))"
    by (simp split: prod.split flow.split)
  have 1: "sorted_wrt (\<lambda>a b. startLine b < startLine a) ?cs"
    using detect_increasing [of doc] by (simp add: detect_sorted_is_rev sorted_wrt_rev)
  have run: "?run = (fst ?run, snd ?run)" by simp
  have 2: "\<exists>n new. results (snd ?run) = rs @ new \<and> map conflict new = take n ?cs"
    using resolveFile_results [OF run] by simp
  have full: "fst ?run = Next \<longrightarrow>
      (\<exists>new. results (snd ?run) = rs @ new \<and> map conflict new = ?cs)"
  proof
    assume nxt: "fst ?run = Next"
    have "?run = (Next, snd ?run)" by (simp add: nxt [symmetric])
    from resolveFile_complete [OF this]
    show "\<exists>new. results (snd ?run) = rs @ new \<and> map conflict new = ?cs" by simp
  qed
  have 3: "?cs = done @ c # rest \<longrightarrow>
      resolveFile host provider (done @ c # rest) ?st0 =
        (if fst ?reach = Next then resolveFile host provider (c # rest) (snd ?reach) else ?reach) \<and>
      list_all (\<lambda>d. endLine c < startLine d) done \<and>
      0 \<le> startLine c \<and> startLine c < endLine c \<and>
      take (nat (endLine c) + 1) (splitNL (getText (editorDocument (snd ?reach)))) =
      take (nat (endLine c) + 1) (splitNL (getText doc))"
  proof
    assume split: "?cs = done @ c # rest"
    have reach: "?reach = (fst ?reach, snd ?reach)" by simp
    note r = batch_order [OF split reach run]
    have "(fst ?run, snd ?run) =
        (if fst ?reach = Next then resolveFile host provider (c # rest) (snd ?reach) else ?reach)"
      using r by simp
    then show "resolveFile host provider (done @ c # rest) ?st0 =
        (if fst ?reach = Next then resolveFile host provider (c # rest) (snd ?reach) else ?reach) \<and>
      list_all (\<lambda>d. endLine c < startLine d) done \<and>
      0 \<le> startLine c \<and> startLine c < endLine c \<and>
      take (nat (endLine c) + 1) (splitNL (getText (editorDocument (snd ?reach)))) =
      take (nat (endLine c) + 1) (splitNL (getText doc))"
      using r split by simp
  qed
  show ?thesis
    using detectAllConflicts_sorted [of host w0] a b c 1 2 full 3
    by (intro conjI) assumption+
qed

theorem batch_edits_in_descending_order_witness:
  "(\<exists>res w'. resolveAllConflicts (workspaceHost twoBlocks) (Some (fixedProvider (str ''r''))) () =
        (Inr res, w') \<and> map conflict res = [secondBlock, firstBlock]) \<and>
   startLine firstBlock < startLine secondBlock \<and>
   sortConflicts (detectConflictsInFile twoBlocks) = [secondBlock, firstBlock] \<and>
   getText (editorDocument (snd (resolveFile (workspaceHost twoBlocks)
       (Some (fixedProvider (str ''r''))) [secondBlock]
       \<lparr>editorDocument = twoBlocks, results = [], world = ()\<rparr>))) =
     str ''<<<<<<< A\<newline>x\<newline>=======\<newline>y\<newline>>>>>>>> a\<newline>mid\<newline>r'' \<and>
   take 5 (splitNL (getText (editorDocument (snd (resolveFile (workspaceHost twoBlocks)
       (Some (fixedProvider (str ''r''))) [secondBlock]
       \<lparr>editorDocument = twoBlocks, results = [], world = ()\<rparr>))))) =
     take 5 (splitNL (getText twoBlocks)) \<and>
   resolveFile (workspaceHost twoBlocks) (Some (fixedProvider (str ''r''))) [secondBlock, firstBlock]
       \<lparr>editorDocument = twoBlocks, results = [], world = ()\<rparr> =
     (Next,
      \<lparr>editorDocument = twoBlocks\<lparr>getText := str ''r\<newline>mid\<newline>r''\<rparr>,
       results =
         [\<lparr>conflict = secondBlock,
            resolution' = \<lparr>resolution = str ''r'', explanation = str ''mock'',
                            confidence = 0.9, alternatives = None\<rparr>,
            applied = True, error = None\<rparr>,
          \<lparr>conflict = firstBlock,
            resolution' = \<lparr>resolution = str ''r'', explanation = str ''mock'',
                            confidence = 0.9, alternatives = None\<rparr>,
            applied = True, error = None\<rparr>],
       world = ()\<rparr>)"
proof -
  let ?h = "workspaceHost twoBlocks"
  let ?p = "Some (fixedProvider (str ''r''))"
  let ?st0 = "\<lparr>editorDocument = twoBlocks, results = [], world = ()\<rparr>"
  note r = batch_edits_in_descending_order [of ?h "()" ?p "()" "str ''f.js''" twoBlocks "()"
      "[firstBlock, secondBlock]" "[]" "[]" "[secondBlock]" firstBlock "[]"]
  have all: "\<exists>res w'. resolveAllConflicts ?h ?p () = (Inr res, w') \<and>
      map conflict res = [secondBlock, firstBlock]"
    using r workspace_neverCancels [of twoBlocks]
    by (simp add: detectAll_twoBlocks sorted_twoBlocks)
  have order: "startLine firstBlock < startLine secondBlock"
    by (simp add: firstBlock_def secondBlock_def)
  have e: "nat (endLine firstBlock) + 1 = 5" by (simp add: firstBlock_def)
  note E = r [THEN conjunct2, THEN conjunct2, THEN conjunct2, THEN conjunct2, THEN conjunct2,
      THEN conjunct2, THEN conjunct2, THEN mp, OF sort_twoBlocks]
  have span: "take 5 (splitNL (getText (editorDocument (snd (resolveFile ?h ?p [secondBlock] ?st0))))) =
      take 5 (splitNL (getText twoBlocks))"
    using E e by simp
  have edited: "getText (editorDocument (snd (resolveFile ?h ?p [secondBlock] ?st0))) =
      str ''<<<<<<< A\<newline>x\<newline>=======\<newline>y\<newline>>>>>>>> a\<newline>mid\<newline>r''"
    by (simp only: workspace_secondBlock snd_conv) simp
  have "resolveFile ?h ?p ([secondBlock] @ firstBlock # []) ?st0 =
      resolveFile ?h ?p [firstBlock] (snd (resolveFile ?h ?p [secondBlock] ?st0))"
    using E [THEN conjunct1] by (simp only: workspace_secondBlock fst_conv simp_thms if_True)
  then have both: "resolveFile ?h ?p [secondBlock, firstBlock] ?st0 =
     (Next,
      \<lparr>editorDocument = twoBlocks\<lparr>getText := str ''r\<newline>mid\<newline>r''\<rparr>,
       results =
         [\<lparr>conflict = secondBlock,
            resolution' = \<lparr>resolution = str ''r'', explanation = str ''mock'',
                            confidence = 0.9, alternatives = None\<rparr>,
            applied = True, error = None\<rparr>,
          \<lparr>conflict = firstBlock,
            resolution' = \<lparr>resolution = str ''r'', explanation = str ''mock'',
                            confidence = 0.9, alternatives = None\<rparr>,
            applied = True, error = None\<rparr>],
       world = ()\<rparr>)"
    by (simp only: workspace_secondBlock snd_conv workspace_firstBlock append_Cons append_Nil)
  have sorted: "sortConflicts (detectConflictsInFile twoBlocks) = [secondBlock, firstBlock]"
    using sort_twoBlocks by (simp only: append_Cons append_Nil)
  show ?thesis
    using all order sorted edited span both
    by (intro conjI) assumption+
qed

text \<open>
  Claim C7. When the provider fails on the request of a conflict, \<open>resolveConflict\<close>
  returns that same error and the world the provider left. In the batch the step for
  that conflict pushes one result with \<open>applied = false\<close> and the message of the error,
  and the loop goes on with the next conflict, unless the user chooses \<open>Cancel\<close>, which
  returns the results.
\<close>

theorem backend_failure_handling:
  assumes fail: "provider (resolutionRequest (editorDocument st) c) (world st) = (Inl err, w1)"
    and live: "\<not> isCancellationRequested host (world st)"
    and action: "showErrorMessage host w1 = (action, w2)"
  shows "resolveConflict (Some provider) (editorDocument st) c (world st) = (Inl err, w1) \<and>
         resolveOne host (Some provider) c st =
           (if action = Some (str ''Cancel'') then Return else Next,
            st\<lparr>results := results st @
                 [\<lparr>conflict = c,
                   resolution' = \<lparr>resolution = [], explanation = [], confidence = 0,
                                   alternatives = None\<rparr>,
                   applied = False, error = Some (message err)\<rparr>],
               world := w2\<rparr>) \<and>
         resolveFile host (Some provider) (c # cs) st =
           (if action = Some (str ''Cancel'') then
              (Return,
               st\<lparr>results := results st @
                    [\<lparr>conflict = c,
                      resolution' = \<lparr>resolution = [], explanation = [], confidence = 0,
                                      alternatives = None\<rparr>,
                      applied = False, error = Some (message err)\<rparr>],
                  world := w2\<rparr>)
            else
              resolveFile host (Some provider) cs
                (st\<lparr>results := results st @
                     [\<lparr>conflict = c,
                       resolution' = \<lparr>resolution = [], explanation = [], confidence = 0,
                                       alternatives = None\<rparr>,
                       applied = False, error = Some (message err)\<rparr>],
                   world := w2\<rparr>))"
proof -
  have 1: "resolveConflict (Some provider) (editorDocument st) c (world st) = (Inl err, w1)"
    by (simp add: resolveConflict_def getProvider_def fail)
  have 2: "resolveOne host (Some provider) c st =
           (if action = Some (str ''Cancel'') then Return else Next,
            st\<lparr>results := results st @
                 [\<lparr>conflict = c,
                   resolution' = \<lparr>resolution = [], explanation = [], confidence = 0,
                                   alternatives = None\<rparr>,
                   applied = False, error = Some (message err)\<rparr>],
               world := w2\<rparr>)"
    by (simp add: resolveOne_def live 1 action)
  show ?thesis
    by (simp add: 1 2)
qed

theorem backend_failure_handling_witness:
  "resolveConflict (Some (failingProvider (str ''down''))) twoBlocks secondBlock () =
     (Inl (Error (str ''down'')), ()) \<and>
   resolveFile (replyingHost []) (Some (failingProvider (str ''down''))) [secondBlock, firstBlock]
     \<lparr>editorDocument = twoBlocks, results = [], world = ()\<rparr> =
   resolveFile (replyingHost []) (Some (failingProvider (str ''down''))) [firstBlock]
     \<lparr>editorDocument = twoBlocks,
      results = [\<lparr>conflict = secondBlock,
                  resolution' = \<lparr>resolution = [], explanation = [], confidence = 0,
                                  alternatives = None\<rparr>,
                  applied = False, error = Some (str ''down'')\<rparr>],
      world = ()\<rparr>"
proof -
  let ?st = "\<lparr>editorDocument = twoBlocks, results = [], world = ()\<rparr>"
  have 1: "failingProvider (str ''down'') (resolutionRequest (editorDocument ?st) secondBlock) (world ?st) =
      (Inl (Error (str ''down'')), ())"
    by (simp add: failingProvider_def)
  have 2: "\<not> isCancellationRequested (replyingHost []) (world ?st)"
    by (simp add: replyingHost_def)
  have 3: "showErrorMessage (replyingHost []) () = (None, ())"
    by (simp add: replyingHost_def)
  show ?thesis
    using backend_failure_handling [where provider = "failingProvider (str ''down'')" and st = ?st
        and c = secondBlock and host = "replyingHost []" and cs = "[firstBlock]", OF 1 2 3]
    by simp
qed

text \<open>
  Claim C8. When the transport returns a reply that \<open>JSON.parse\<close> rejects, each of the
  three providers returns a response, not an error: its resolution is the reply, its
  explanation is the fallback text, which is not empty, and its confidence is 0.5 for
  Ollama and 0.6 for OpenAI and Claude, within \<open>[0, 1]\<close>. The two hosted providers call
  the transport only with an API key.
\<close>

theorem unparseable_reply_is_not_an_error:
  assumes ollama: "transport host Ollama (ollamaCall config request) w = (Inr reply, w')"
    and openai: "transport host OpenAI
        (hostedCall openaiEndpoint (str ''gpt-4'') openaiSystem hosted request) w = (Inr reply, w')"
    and claude: "transport host Claude
        (hostedCall claudeEndpoint (str ''claude-3-opus-20240229'') claudeSystem hosted request) w =
        (Inr reply, w')"
    and unparseable: "jsonParse host reply = None"
    and key: "truthy (apiKey hosted)"
  shows "\<exists>r1 r2 r3.
           OllamaProvider host config request w = (Inr r1, w') \<and>
           OpenAIProvider host hosted request w = (Inr r2, w') \<and>
           ClaudeProvider host hosted request w = (Inr r3, w') \<and>
           resolution r1 = reply \<and> resolution r2 = reply \<and> resolution r3 = reply \<and>
           explanation r1 \<noteq> [] \<and> explanation r2 \<noteq> [] \<and> explanation r3 \<noteq> [] \<and>
           confidence r1 = 0.5 \<and> confidence r2 = 0.6 \<and> confidence r3 = 0.6 \<and>
           0 \<le> confidence r1 \<and> confidence r1 \<le> 1 \<and>
           0 \<le> confidence r2 \<and> confidence r2 \<le> 1 \<and>
           0 \<le> confidence r3 \<and> confidence r3 \<le> 1"
proof -
  let ?r = "\<lambda>k. \<lparr>resolution = reply, explanation = unexpectedFormat, confidence = k,
                 alternatives = None\<rparr>"
  have 1: "OllamaProvider host config request w = (Inr (?r 0.5), w')"
    by (simp add: OllamaProvider_def ollama unparseable)
  have 2: "OpenAIProvider host hosted request w = (Inr (?r 0.6), w')"
    by (simp add: OpenAIProvider_def hostedProvider_def openai unparseable key)
  have 3: "ClaudeProvider host hosted request w = (Inr (?r 0.6), w')"
    by (simp add: ClaudeProvider_def hostedProvider_def claude unparseable key)
  have 4: "unexpectedFormat \<noteq> []"
    by (simp add: unexpectedFormat_def str_def)
  show ?thesis
    using 1 2 3 4 by simp
qed

theorem unparseable_reply_is_not_an_error_witness:
  "OllamaProvider (replyingHost (str ''not json''))
      \<lparr>apiKey = None, model = None, endpoint = None, temperature = None, maxTokens = None\<rparr>
      (resolutionRequest twoBlocks firstBlock) () =
     (Inr \<lparr>resolution = str ''not json'', explanation = unexpectedFormat, confidence = 0.5,
            alternatives = None\<rparr>, ()) \<and>
   OpenAIProvider (replyingHost (str ''not json''))
      \<lparr>apiKey = Some (str ''k''), model = None, endpoint = None, temperature = None,
       maxTokens = None\<rparr>
      (resolutionRequest twoBlocks firstBlock) () =
     (Inr \<lparr>resolution = str ''not json'', explanation = unexpectedFormat, confidence = 0.6,
            alternatives = None\<rparr>, ())"
proof -
  let ?h = "replyingHost (str ''not json'')"
  have 1: "transport ?h kind call () = (Inr (str ''not json''), ())" for kind call
    by (simp add: replyingHost_def)
  have 2: "jsonParse ?h (str ''not json'') = None"
    by (simp add: replyingHost_def)
  have 3: "truthy (apiKey \<lparr>apiKey = Some (str ''k''), model = None, endpoint = None,
      temperature = None, maxTokens = None\<rparr>)"
    by (simp add: truthy_def str_def)
  from unparseable_reply_is_not_an_error [OF 1 1 1 2 3,
      of "\<lparr>apiKey = None, model = None, endpoint = None, temperature = None, maxTokens = None\<rparr>"
         "resolutionRequest twoBlocks firstBlock"]
  obtain r1 r2 r3 where
    "OllamaProvider ?h \<lparr>apiKey = None, model = None, endpoint = None, temperature = None,
        maxTokens = None\<rparr> (resolutionRequest twoBlocks firstBlock) () = (Inr r1, ())"
    "OpenAIProvider ?h \<lparr>apiKey = Some (str ''k''), model = None, endpoint = None,
        temperature = None, maxTokens = None\<rparr> (resolutionRequest twoBlocks firstBlock) () = (Inr r2, ())"
    "resolution r1 = str ''not json''" "resolution r2 = str ''not json''"
    "confidence r1 = 0.5" "confidence r2 = 0.6"
    by blast
  moreover have "explanation r1 = unexpectedFormat \<and> alternatives r1 = None \<and>
      explanation r2 = unexpectedFormat \<and> alternatives r2 = None"
    using calculation
    by (auto simp: OllamaProvider_def OpenAIProvider_def hostedProvider_def replyingHost_def truthy_def str_def)
  ultimately show ?thesis
    by (cases r1, cases r2) simp
qed

text \<open>
  Claim C9 says that the attempts of \<open>getSuggestions\<close> are issued with distinct,
  increasing temperatures. The array \<open>temperatures\<close> only bounds the number of attempts:
  the request does not carry a temperature, and the provider sends the one of its
  configuration. On the host that records the temperature of each transport call, every
  attempt is sent with the same value.
\<close>

lemma logging_Ollama:
  "OllamaProvider (loggingHost reply) config request w =
     (Inr \<lparr>resolution = reply, explanation = unexpectedFormat, confidence = 0.5,
           alternatives = None\<rparr>, w @ [orNumber (temperature config) 0.3])"
  by (simp add: OllamaProvider_def ollamaCall_def loggingHost_def)

lemma suggestionLoop_logging:
  "snd (suggestionLoop (OllamaProvider (loggingHost reply) config) doc c bound i suggestions w) =
     w @ replicate (nat (bound - i)) (orNumber (temperature config) 0.3)"
proof (induction "OllamaProvider (loggingHost reply) config" doc c bound i suggestions w
    rule: suggestionLoop.induct)
  case (1 doc c bound i suggestions w)
  show ?case
  proof (cases "i < bound")
    case True
    then have "nat (bound - i) = Suc (nat (bound - (i + 1)))" by simp
    then show ?thesis
      using True "1.hyps"(2) [OF True logging_Ollama [symmetric]]
      by (subst suggestionLoop.simps) (simp add: logging_Ollama replicate_append_same)
  next
    case False
    then show ?thesis by (subst suggestionLoop.simps) simp
  qed
qed

lemma getSuggestions_logging:
  "snd (getSuggestions (Some (OllamaProvider (loggingHost reply) config)) doc c count []) =
     replicate (nat (min count 3)) (orNumber (temperature config) 0.3)"
proof -
  obtain s w' where run: "suggestionLoop (OllamaProvider (loggingHost reply) config) doc c
      (min count (int (length temperatures))) 0 [] [] = (s, w')"
    by fastforce
  have "w' = [] @ replicate (nat (min count (int (length temperatures)) - 0))
      (orNumber (temperature config) 0.3)"
    using suggestionLoop_logging [of reply config doc c "min count (int (length temperatures))" 0 "[]" "[]"]
    by (simp only: run snd_conv)
  then have "w' = replicate (nat (min count 3)) (orNumber (temperature config) 0.3)"
    by (simp add: temperatures_def)
  then show ?thesis
    by (simp add: getSuggestions_def getProvider_def run)
qed

text \<open>
  Claim C9, for the Ollama provider as the provider manager configures it and three
  attempts: the three calls carry the temperature 0.3, not 0.2, 0.5 and 0.8.
\<close>

theorem suggestions_share_one_temperature:
  "snd (getSuggestions
         (Some (switchProvider (loggingHost (str ''x'')) Ollama
            (getProviderConfig Ollama
               \<lparr>ollamaUrl = str ''http://localhost:11434'', ollamaModel = str ''codellama'',
                openaiModel = str ''gpt-4'', claudeModel = str ''claude-3-opus-20240229''\<rparr> None)))
         \<lparr>getText = str ''<<<<<<< HEAD\<newline>a\<newline>=======\<newline>b\<newline>>>>>>>> f'', fileName = str ''f.js'',
          languageId = str ''javascript''\<rparr>
         \<lparr>startLine = 0, currentStart = 1, filePath = str ''f.js'', currentEnd = Some 1,
          separatorLine = Some 2, incomingStart = Some 3, endLine = 4, incomingEnd = 3,
          currentContent = str ''a'', incomingContent = str ''b'', baseContent = None\<rparr>
         3 []) = [0.3, 0.3, 0.3] \<and>
   temperatures = [0.2, 0.5, 0.8]"
  by (simp add: getSuggestions_logging switchProvider_def getProviderConfig_def orNumber_def
      temperatures_def eval_nat_numeral)

end
